theory Spec2Isabelle
  imports Complex_Main "HOL-Library.Word"
begin

section \<open>Numbers of the renderer\<close>

text \<open>
  The adaptive sampler of \<^verbatim>\<open>yocto_trace_adp.cpp\<close> computes on C++ \<^verbatim>\<open>int\<close>,
  \<^verbatim>\<open>float\<close> and \<^verbatim>\<open>double\<close>.  Integers are modelled as \<^typ>\<open>int\<close>: signed overflow
  is undefined in C++, so every statement below is about runs that stay inside the
  range of \<^verbatim>\<open>int\<close>.

  A floating point value is one of the four IEEE classes below.  \<open>Fin x\<close> is a finite
  value, carried as the real number it denotes.  The sign of zero is not modelled (a
  division of a nonzero finite value by zero is the infinity of the sign of the
  numerator).  The accumulators, the quality estimate and the image size are computed
  without rounding: what is modelled there is the control flow that floating point values
  decide, that is comparisons (all false on \<open>NaN\<close>), the special values of division,
  square root and logarithm, and conversions.  The product that \<^verbatim>\<open>q_img\<close> converts
  to an integer is rounded to \<^verbatim>\<open>float\<close>, since the integer depends on it.
\<close>

datatype flt = NaN | NInf | Fin real | PInf

fun fle :: "flt \<Rightarrow> flt \<Rightarrow> bool" where
  "fle NaN _ = False"
| "fle _ NaN = False"
| "fle NInf _ = True"
| "fle _ PInf = True"
| "fle (Fin a) (Fin b) = (a \<le> b)"
| "fle _ _ = False"

fun flt_less :: "flt \<Rightarrow> flt \<Rightarrow> bool" where
  "flt_less NaN _ = False"
| "flt_less _ NaN = False"
| "flt_less PInf _ = False"
| "flt_less _ NInf = False"
| "flt_less (Fin a) (Fin b) = (a < b)"
| "flt_less _ _ = True"

definition fge :: "flt \<Rightarrow> flt \<Rightarrow> bool" where
  "fge a b = fle b a"

definition fgt :: "flt \<Rightarrow> flt \<Rightarrow> bool" where
  "fgt a b = flt_less b a"

fun fneg :: "flt \<Rightarrow> flt" where
  "fneg NaN = NaN"
| "fneg NInf = PInf"
| "fneg PInf = NInf"
| "fneg (Fin a) = Fin (- a)"

fun fadd :: "flt \<Rightarrow> flt \<Rightarrow> flt" where
  "fadd NaN _ = NaN"
| "fadd _ NaN = NaN"
| "fadd PInf NInf = NaN"
| "fadd NInf PInf = NaN"
| "fadd PInf _ = PInf"
| "fadd _ PInf = PInf"
| "fadd NInf _ = NInf"
| "fadd _ NInf = NInf"
| "fadd (Fin a) (Fin b) = Fin (a + b)"

definition fsub :: "flt \<Rightarrow> flt \<Rightarrow> flt" where
  "fsub a b = fadd a (fneg b)"

fun fsqrt :: "flt \<Rightarrow> flt" where
  "fsqrt NaN = NaN"
| "fsqrt NInf = NaN"
| "fsqrt PInf = PInf"
| "fsqrt (Fin a) = (if a < 0 then NaN else Fin (sqrt a))"

definition flt_of_int :: "int \<Rightarrow> flt" where
  "flt_of_int n = Fin (real_of_int n)"

fun fabs :: "flt \<Rightarrow> flt" where
  "fabs NaN = NaN"
| "fabs NInf = PInf"
| "fabs PInf = PInf"
| "fabs (Fin a) = Fin \<bar>a\<bar>"

fun fmul :: "flt \<Rightarrow> flt \<Rightarrow> flt" where
  "fmul NaN _ = NaN"
| "fmul _ NaN = NaN"
| "fmul (Fin a) (Fin b) = Fin (a * b)"
| "fmul (Fin a) PInf = (if a = 0 then NaN else if 0 < a then PInf else NInf)"
| "fmul (Fin a) NInf = (if a = 0 then NaN else if 0 < a then NInf else PInf)"
| "fmul PInf (Fin b) = (if b = 0 then NaN else if 0 < b then PInf else NInf)"
| "fmul NInf (Fin b) = (if b = 0 then NaN else if 0 < b then NInf else PInf)"
| "fmul PInf PInf = PInf"
| "fmul NInf NInf = PInf"
| "fmul PInf NInf = NInf"
| "fmul NInf PInf = NInf"

fun fdiv :: "flt \<Rightarrow> flt \<Rightarrow> flt" where
  "fdiv NaN _ = NaN"
| "fdiv _ NaN = NaN"
| "fdiv (Fin a) (Fin b) =
     (if b = 0 then (if a = 0 then NaN else if 0 < a then PInf else NInf)
      else Fin (a / b))"
| "fdiv (Fin a) PInf = Fin 0"
| "fdiv (Fin a) NInf = Fin 0"
| "fdiv PInf (Fin b) = (if 0 \<le> b then PInf else NInf)"
| "fdiv NInf (Fin b) = (if 0 \<le> b then NInf else PInf)"
| "fdiv _ _ = NaN"

text \<open>
  Where a statement depends on the rounding of a \<^verbatim>\<open>float\<close> operation, the operation
  is rounded as binary32 does: to 24 significant bits, to the nearest value with ties
  to the even one, with exponents from \<open>-126\<close> on (subnormal values below) and
  infinity from \<open>2\<^sup>1\<^sup>2\<^sup>8\<close> on.
\<close>

definition pow2 :: "int \<Rightarrow> real" where
  "pow2 e = (if 0 \<le> e then 2 ^ nat e else 1 / 2 ^ nat (- e))"

definition round_even :: "real \<Rightarrow> int" where
  "round_even m =
     (if m - real_of_int \<lfloor>m\<rfloor> < 1 / 2 then \<lfloor>m\<rfloor>
      else if 1 / 2 < m - real_of_int \<lfloor>m\<rfloor> then \<lfloor>m\<rfloor> + 1
      else if even \<lfloor>m\<rfloor> then \<lfloor>m\<rfloor> else \<lfloor>m\<rfloor> + 1)"

text \<open>The distance between neighbouring binary32 values around \<open>x\<close>.\<close>

definition f32_ulp :: "real \<Rightarrow> real" where
  "f32_ulp x = pow2 (max (- 126) \<lfloor>log 2 \<bar>x\<bar>\<rfloor> - 23)"

definition f32_round :: "real \<Rightarrow> flt" where
  "f32_round x =
     (if x = 0 then Fin 0
      else (let r = real_of_int (round_even (x / f32_ulp x)) * f32_ulp x in
            if pow2 128 \<le> \<bar>r\<bar> then (if 0 < x then PInf else NInf) else Fin r))"

text \<open>The product of two \<^verbatim>\<open>float\<close> values, as a \<^verbatim>\<open>float\<close>.\<close>

definition fmul32 :: "flt \<Rightarrow> flt \<Rightarrow> flt" where
  "fmul32 a b = (case fmul a b of Fin p \<Rightarrow> f32_round p | NaN \<Rightarrow> NaN | NInf \<Rightarrow> NInf | PInf \<Rightarrow> PInf)"

text \<open>\<^verbatim>\<open>log2\<close>: minus infinity at zero, \<open>NaN\<close> below zero.\<close>

fun flog2 :: "flt \<Rightarrow> flt" where
  "flog2 NaN = NaN"
| "flog2 NInf = NaN"
| "flog2 PInf = PInf"
| "flog2 (Fin a) = (if a < 0 then NaN else if a = 0 then NInf else Fin (log 2 a))"

fun isfinite :: "flt \<Rightarrow> bool" where
  "isfinite (Fin a) = True"
| "isfinite _ = False"

text \<open>\<^verbatim>\<open>round\<close> of the C library: to the nearest integer, halves away from zero.\<close>

fun cround :: "flt \<Rightarrow> flt" where
  "cround (Fin a) = Fin (if 0 \<le> a then real_of_int \<lfloor>a + 1 / 2\<rfloor> else real_of_int \<lceil>a - 1 / 2\<rceil>)"
| "cround x = x"

datatype fault = DivisionByZero | FloatToIntOverflow

text \<open>
  The conversion \<^verbatim>\<open>(int)x\<close> and \<^verbatim>\<open>int(x)\<close> of a floating point value truncates
  towards zero; it is undefined when the truncated value does not fit a 32-bit
  \<^verbatim>\<open>int\<close>, and for infinities and \<open>NaN\<close>.
\<close>

definition trunc_real :: "real \<Rightarrow> int" where
  "trunc_real a = (if 0 \<le> a then \<lfloor>a\<rfloor> else \<lceil>a\<rceil>)"

fun int_of_flt :: "flt \<Rightarrow> fault + int" where
  "int_of_flt (Fin a) =
     (if - 2147483648 \<le> trunc_real a \<and> trunc_real a \<le> 2147483647
      then Inr (trunc_real a) else Inl FloatToIntOverflow)"
| "int_of_flt _ = Inl FloatToIntOverflow"

text \<open>Integer division and remainder of C++ truncate towards zero.\<close>

definition tdiv :: "int \<Rightarrow> int \<Rightarrow> int" where
  "tdiv a b = sgn a * sgn b * (\<bar>a\<bar> div \<bar>b\<bar>)"

definition tmod :: "int \<Rightarrow> int \<Rightarrow> int" where
  "tmod a b = a - b * tdiv a b"

section \<open>Spread table\<close>

text \<open>
  \<^verbatim>\<open>struct sample_spread { signed char x, y; float div; }\<close>.  The offsets written by
  \<^verbatim>\<open>create_sample_spread\<close> lie between \<open>-8\<close> and \<open>8\<close>, inside the range of
  \<^verbatim>\<open>signed char\<close>, so they are kept as \<^typ>\<open>int\<close>.
\<close>

record sample_spread =
  spread_x :: int
  spread_y :: int
  spread_div :: flt

text \<open>
  The radius chosen at the head of \<^verbatim>\<open>create_sample_spread\<close>.  The bounds are
  \<^verbatim>\<open>double\<close> literals compared with a \<^verbatim>\<open>float\<close>; no \<^verbatim>\<open>float\<close> lies between such a
  literal and the decimal number it is written as, so the comparison with the
  decimal number decides the same.
\<close>

definition spread_radius :: "flt \<Rightarrow> int" where
  "spread_radius step_q =
     (if fle step_q (Fin (49 / 100)) then 8
      else if fle step_q (Fin (199 / 100)) then 4
      else if fle step_q (Fin (399 / 100)) then 2
      else 1)"

text \<open>
  The test that guards \<^verbatim>\<open>emplace_back\<close>: unconditional at radius 1, otherwise
  \<^verbatim>\<open>sqrtf((float)(i * i) + (j * j)) <= radius\<close>.
\<close>

definition spread_keep :: "int \<Rightarrow> int \<Rightarrow> int \<Rightarrow> bool" where
  "spread_keep radius i j =
     (if radius = 1 then True
      else fle (fsqrt (fadd (flt_of_int (i * i)) (flt_of_int (j * j)))) (flt_of_int radius))"

text \<open>
  The vector passed in is cleared first, so the table is a function of \<open>step_q\<close>
  alone; the two nested loops run \<open>i\<close> and \<open>j\<close> from \<open>-radius\<close> to \<open>radius\<close>.
\<close>

definition create_sample_spread :: "flt \<Rightarrow> sample_spread list" where
  "create_sample_spread step_q =
     (let radius = spread_radius step_q in
      concat (map (\<lambda>i.
        concat (map (\<lambda>j.
          if i = 0 \<and> j = 0 then []
          else if spread_keep radius i j
               then [\<lparr>spread_x = i, spread_y = j, spread_div = Fin 2\<rparr>]
               else [])
          [- radius..radius]))
        [- radius..radius]))"

section \<open>Render state\<close>

text \<open>
  Modelled from the spec: the vectors, the image container and the records of the
  sampler (section 3.1 for the pixel and the state, section 6 for the parameters).
  Their header is not part of the sources at hand; the fields are those that
  \<^verbatim>\<open>yocto_trace_adp.cpp\<close> reads and writes, counts are \<^verbatim>\<open>int\<close> as in the arithmetic of
  \<^verbatim>\<open>trace_sample\<close>, and \<^verbatim>\<open>byte\<close> is an unsigned 8-bit value.  A vector is a tuple; an
  image is its size and its cells, addressed by \<open>(i, j)\<close>.  The container does no
  bounds check, and every caller takes the coordinates it passes from the size of
  the image, so a cell is read and written at coordinates inside the image only.
\<close>

type_synonym vec2i = "int \<times> int"
type_synonym vec3f = "flt \<times> flt \<times> flt"
type_synonym vec4f = "flt \<times> flt \<times> flt \<times> flt"
type_synonym byte = "8 word"
type_synonym vec4b = "byte \<times> byte \<times> byte \<times> byte"

definition zero3f :: vec3f where
  "zero3f = (Fin 0, Fin 0, Fin 0)"

definition zero4f :: vec4f where
  "zero4f = (Fin 0, Fin 0, Fin 0, Fin 0)"

record 'a image2d =
  extent :: vec2i
  cells :: "vec2i \<Rightarrow> 'a"

text \<open>\<^verbatim>\<open>img.assign(size, value)\<close>\<close>

definition assign :: "vec2i \<Rightarrow> 'a \<Rightarrow> 'a image2d" where
  "assign sz v = \<lparr>extent = sz, cells = (\<lambda>_. v)\<rparr>"

record sample =
  radiance :: vec3f
  hits :: int
  samples :: int

text \<open>
  A pixel: the accumulator of all samples (\<^verbatim>\<open>actual\<close>), the accumulator of the
  odd-numbered samples (\<^verbatim>\<open>odd\<close>), the quality estimate \<^verbatim>\<open>q\<close>, and the scratch
  fields.  The generator \<^verbatim>\<open>rng\<close> only feeds the external sampler, whose results are
  inputs of this model, so it is left out.
\<close>

record pixel =
  actual :: sample
  odd_part :: sample
  pixel_q :: flt
  sample_budget :: int
  time_in_sample :: int

definition zero_sample :: sample where
  "zero_sample = \<lparr>radiance = zero3f, hits = 0, samples = 0\<rparr>"

text \<open>
  Modelled from the spec: \<^verbatim>\<open>pixel{}\<close>, the pixel that \<^verbatim>\<open>init_state\<close> assigns, with empty
  accumulators and quality 0 (section 3.1).
\<close>

definition zero_pixel :: pixel where
  "zero_pixel = \<lparr>actual = zero_sample, odd_part = zero_sample, pixel_q = Fin 0,
     sample_budget = 0, time_in_sample = 0\<rparr>"

text \<open>
  The render state.  Clock readings (\<^verbatim>\<open>start_time\<close> and every \<^verbatim>\<open>now()\<close>) are
  nanoseconds.  \<^verbatim>\<open>stop\<close> is the atomic flag raised by \<^verbatim>\<open>trace_stop\<close>.
\<close>

record state =
  pixels :: "pixel image2d"
  render :: "vec4f image2d"
  odd_render :: "vec4f image2d"
  sample_count :: int
  start_time :: int
  min_q :: flt
  curr_q :: flt
  ij_by_q :: "vec2i list"
  ij_by_proximity :: "vec2i list"
  stop :: bool

record trace_params =
  resolution :: int
  envhidden :: bool
  clamp :: flt

record adp_params =
  trc_params :: trace_params
  min_samples :: int
  sample_step :: int
  max_samples :: int
  desired_q :: flt
  desired_spp :: int
  desired_seconds :: int

record camera =
  film :: "flt \<times> flt"

record scene =
  environments_empty :: bool

section \<open>Initialisation\<close>

text \<open>
  The image size computed at the head of \<^verbatim>\<open>init_state\<close>: the long axis takes
  \<^verbatim>\<open>resolution\<close>, the other one \<^verbatim>\<open>(int)round(resolution * a / b)\<close>.
\<close>

definition image_size :: "camera \<Rightarrow> trace_params \<Rightarrow> fault + vec2i" where
  "image_size cam tp =
     (let fx = fst (film cam); fy = snd (film cam) in
      if fgt fx fy
      then (case int_of_flt (cround (fdiv (fmul (flt_of_int (resolution tp)) fy) fx)) of
              Inl e \<Rightarrow> Inl e
            | Inr h \<Rightarrow> Inr (resolution tp, h))
      else (case int_of_flt (cround (fdiv (fmul (flt_of_int (resolution tp)) fx) fy)) of
              Inl e \<Rightarrow> Inl e
            | Inr w \<Rightarrow> Inr (w, resolution tp)))"

text \<open>
  \<^verbatim>\<open>init_state\<close>: unless the stop flag is up, the start time is taken and the three
  images are assigned at the computed size.  The function has no other branch: it
  tests nothing about the size.  (The final loop reseeds the generators, which are
  not modelled.)  \<open>now\<close> is the reading of the system clock.
\<close>

definition init_state :: "state \<Rightarrow> camera \<Rightarrow> trace_params \<Rightarrow> int \<Rightarrow> fault + state" where
  "init_state st cam tp now =
     (case image_size cam tp of
        Inl e \<Rightarrow> Inl e
      | Inr sz \<Rightarrow>
          Inr (if stop st then st
               else st\<lparr>start_time := now,
                       pixels := assign sz zero_pixel,
                       render := assign sz zero4f,
                       odd_render := assign sz zero4f\<rparr>))"

section \<open>Termination oracle\<close>

definition img_size :: "state \<Rightarrow> int" where
  "img_size st = fst (extent (render st)) * snd (extent (render st))"

text \<open>
  \<^verbatim>\<open>checkEnd\<close>.  \<open>now\<close> is the reading of the system clock taken when the time
  budget is tested.  The quotient \<^verbatim>\<open>sample_count / img_size\<close> is an integer division:
  with \<^verbatim>\<open>img_size = 0\<close> it is a division by zero, which is undefined behaviour (a trap
  on common hardware) and a fault here.
\<close>

definition checkEnd :: "state \<Rightarrow> adp_params \<Rightarrow> int \<Rightarrow> fault + bool" where
  "checkEnd st params now =
     (if stop st then Inr True
      else if 0 < desired_spp params \<and> img_size st = 0 then Inl DivisionByZero
      else if 0 < desired_spp params \<and>
              desired_spp params \<le> tdiv (sample_count st) (img_size st) then Inr True
      else if 0 < desired_seconds params \<and>
              desired_seconds params \<le> tdiv (now - start_time st) 1000000000 then Inr True
      else if desired_spp params = 0 \<and> desired_seconds params = 0 \<and>
              fge (min_q st) (desired_q params) then Inr True
      else Inr False)"

section \<open>Quality map\<close>

text \<open>
  One cell of \<^verbatim>\<open>q_img\<close>: \<^verbatim>\<open>int p = int(px.q * step)\<close> with \<^verbatim>\<open>step = 20.0f\<close>, the
  product being a \<^verbatim>\<open>float\<close>; \<open>p\<close> is capped at 255 from above only, then converted to
  \<^verbatim>\<open>byte\<close> (\<^verbatim>\<open>unsigned char\<close>), which reduces modulo 256.
\<close>

definition q_img_cell :: "pixel \<Rightarrow> fault + vec4b" where
  "q_img_cell px =
     (case int_of_flt (fmul32 (pixel_q px) (Fin 20)) of
        Inl e \<Rightarrow> Inl e
      | Inr p0 \<Rightarrow>
          (let p = (if 255 < p0 then 255 else p0) in
           Inr (word_of_int p, word_of_int p, word_of_int p, 255)))"

text \<open>The coordinates visited by \<^verbatim>\<open>for i < size.x, for j < size.y\<close>.\<close>

definition coords :: "vec2i \<Rightarrow> vec2i list" where
  "coords sz = concat (map (\<lambda>i. map (\<lambda>j. (i, j)) [0..snd sz - 1]) [0..fst sz - 1])"

fun q_img_loop :: "state \<Rightarrow> vec2i list \<Rightarrow> vec4b image2d \<Rightarrow> fault + vec4b image2d" where
  "q_img_loop st [] img = Inr img"
| "q_img_loop st (ij # ijs) img =
     (case q_img_cell (cells (pixels st) ij) of
        Inl e \<Rightarrow> Inl e
      | Inr c \<Rightarrow> q_img_loop st ijs (img\<lparr>cells := (cells img)(ij := c)\<rparr>))"

definition q_img :: "state \<Rightarrow> fault + vec4b image2d" where
  "q_img st =
     q_img_loop st (coords (extent (render st)))
       (assign (extent (render st)) (0, 0, 0, 255))"

text \<open>One cell of the quality map, when the map could be computed.\<close>

definition q_img_at :: "state \<Rightarrow> vec2i \<Rightarrow> fault + vec4b" where
  "q_img_at st ij = (case q_img st of Inl e \<Rightarrow> Inl e | Inr img \<Rightarrow> Inr (cells img ij))"

section \<open>Sampler adapter\<close>

text \<open>
  Modelled from the spec: the vector helpers of the math library, which is not part
  of the sources at hand (section 4.1: a non-finite radiance is replaced by zero;
  the maximum is taken over the three components; rescaling multiplies every
  component).
\<close>

definition isfinite3 :: "vec3f \<Rightarrow> bool" where
  "isfinite3 v = (case v of (x, y, z) \<Rightarrow> isfinite x \<and> isfinite y \<and> isfinite z)"

definition fmax :: "flt \<Rightarrow> flt \<Rightarrow> flt" where
  "fmax a b = (if fgt a b then a else b)"

definition max3 :: "vec3f \<Rightarrow> flt" where
  "max3 v = (case v of (x, y, z) \<Rightarrow> fmax (fmax x y) z)"

definition vscale :: "vec3f \<Rightarrow> flt \<Rightarrow> vec3f" where
  "vscale v c = (case v of (x, y, z) \<Rightarrow> (fmul x c, fmul y c, fmul z c))"

text \<open>
  What one iteration of the loop of \<^verbatim>\<open>trace_sample\<close> takes from outside the
  function: the result of the external sampler and the time it took, and, for each
  of the two places where the iteration reads the atomic stop flag (its own test and
  the one at the head of \<^verbatim>\<open>checkEnd\<close>), whether another thread has raised the flag by
  then; \<open>check_now\<close> is the clock reading inside \<^verbatim>\<open>checkEnd\<close>.
\<close>

record event =
  stop_before_sample :: bool
  sampled_radiance :: vec3f
  sampled_hit :: bool
  sampler_nanos :: int
  stop_before_check :: bool
  check_now :: int

definition raise_stop :: "bool \<Rightarrow> state \<Rightarrow> state" where
  "raise_stop b st = (if b then st\<lparr>stop := True\<rparr> else st)"

definition set_pixel :: "state \<Rightarrow> vec2i \<Rightarrow> pixel \<Rightarrow> state" where
  "set_pixel st ij px = st\<lparr>pixels := (pixels st)\<lparr>cells := (cells (pixels st))(ij := px)\<rparr>\<rparr>"

text \<open>
  Lines 158 to 168: a miss counts as a hit with its radiance when the scene has an
  environment that is not hidden, and is black otherwise; a non-finite radiance is
  dropped; a radiance whose largest component reaches \<^verbatim>\<open>clamp\<close> is scaled down.
\<close>

definition adjust_sample :: "trace_params \<Rightarrow> scene \<Rightarrow> vec3f \<Rightarrow> bool \<Rightarrow> vec3f \<times> bool" where
  "adjust_sample tp sc radiance0 hit0 =
     (let (radiance1, hit1) =
            (if \<not> hit0
             then (if envhidden tp \<or> environments_empty sc then (zero3f, False)
                   else (radiance0, True))
             else (radiance0, hit0));
          radiance2 = (if \<not> isfinite3 radiance1 then zero3f else radiance1);
          radiance3 = (if fge (max3 radiance2) (clamp tp)
                       then vscale radiance2 (fdiv (clamp tp) (max3 radiance2))
                       else radiance2)
      in (radiance3, hit1))"

text \<open>Lines 170 to 182: one sample enters \<^verbatim>\<open>actual\<close>, and \<^verbatim>\<open>odd\<close> when the new count is odd.\<close>

definition accumulate :: "sample \<Rightarrow> vec3f \<Rightarrow> bool \<Rightarrow> sample" where
  "accumulate a r h =
     (case (radiance a, r) of
        ((ax, ay, az), (rx, ry, rz)) \<Rightarrow>
          a\<lparr>radiance := (fadd ax rx, fadd ay ry, fadd az rz),
            hits := hits a + (if h then 1 else 0),
            samples := samples a + 1\<rparr>)"

definition add_to_pixel :: "pixel \<Rightarrow> vec3f \<Rightarrow> bool \<Rightarrow> pixel" where
  "add_to_pixel px r h =
     (let px1 = px\<lparr>actual := accumulate (actual px) r h\<rparr> in
      if tmod (samples (actual px1)) 2 = 1
      then px1\<lparr>odd_part := accumulate (odd_part px1) r h\<rparr>
      else px1)"

text \<open>The guarded part of the loop body, lines 149 to 183.\<close>

definition sample_once :: "scene \<Rightarrow> adp_params \<Rightarrow> vec2i \<Rightarrow> event \<Rightarrow> state \<Rightarrow> state" where
  "sample_once sc params ij ev st0 =
     (let st = raise_stop (stop_before_sample ev) st0 in
      if \<not> stop st
      then (let px = cells (pixels st) ij;
                px1 = px\<lparr>time_in_sample := time_in_sample px + sampler_nanos ev\<rparr>;
                (r, h) = adjust_sample (trc_params params) sc (sampled_radiance ev) (sampled_hit ev)
            in (set_pixel st ij (add_to_pixel px1 r h))\<lparr>sample_count := sample_count st + 1\<rparr>)
      else st)"

text \<open>
  The loop \<^verbatim>\<open>for (s = 0; s < samples; s++)\<close>, with \<open>k\<close> the number of iterations still
  to run.  The flag of the result tells whether \<^verbatim>\<open>checkEnd\<close> fired, in which case
  \<^verbatim>\<open>trace_sample\<close> returns on the spot.
\<close>

fun sample_loop ::
  "scene \<Rightarrow> adp_params \<Rightarrow> vec2i \<Rightarrow> (nat \<Rightarrow> event) \<Rightarrow> nat \<Rightarrow> nat \<Rightarrow> state \<Rightarrow> fault + bool \<times> state"
where
  "sample_loop sc params ij env s 0 st = Inr (False, st)"
| "sample_loop sc params ij env s (Suc k) st =
     (let st1 = sample_once sc params ij (env s) st;
          st2 = raise_stop (stop_before_check (env s)) st1
      in case checkEnd st2 params (check_now (env s)) of
           Inl e \<Rightarrow> Inl e
         | Inr fired \<Rightarrow>
             if fired then Inr (True, st2)
             else sample_loop sc params ij env (Suc s) k st2)"

text \<open>Lines 190 to 202: the cell of \<^verbatim>\<open>render\<close> or \<^verbatim>\<open>odd_render\<close> computed from an accumulator.\<close>

definition render_cell :: "sample \<Rightarrow> vec4f" where
  "render_cell a =
     (case (if hits a \<noteq> 0
            then (case radiance a of (x, y, z) \<Rightarrow>
                    (fdiv x (flt_of_int (hits a)), fdiv y (flt_of_int (hits a)),
                     fdiv z (flt_of_int (hits a))))
            else zero3f) of
        (x, y, z) \<Rightarrow> (x, y, z, fdiv (flt_of_int (hits a)) (flt_of_int (samples a))))"

text \<open>Lines 208 to 219: the error of a pixel from the two sRGB colours.\<close>

definition pixel_error :: "vec4f \<Rightarrow> vec4f \<Rightarrow> flt" where
  "pixel_error srgb srgb_odd =
     (case (srgb, srgb_odd) of
        ((x, y, z, w), (ox, oy, oz, ow)) \<Rightarrow>
          (let d = fadd (fadd (fabs (fsub x ox)) (fabs (fsub y oy))) (fabs (fsub z oz));
               dv = fsqrt (fadd (fadd x y) z)
           in if fge dv (Fin (1 / 10000)) then fdiv d (fsqrt (fadd (fadd x y) z))
              else fdiv d (Fin (1 / 100))))"

text \<open>
  Lines 204 to 227: the new quality of a pixel.  \<open>rgb_to_srgb\<close>, the colour conversion
  of the math library, is a parameter.
\<close>

definition new_q :: "(vec4f \<Rightarrow> vec4f) \<Rightarrow> adp_params \<Rightarrow> int \<Rightarrow> vec4f \<Rightarrow> vec4f \<Rightarrow> flt" where
  "new_q rgb_to_srgb params n r ro =
     (if n < max_samples params
      then (let q0 = fneg (flog2 (pixel_error (rgb_to_srgb r) (rgb_to_srgb ro)))
            in if fgt q0 (Fin 10) then Fin 10 else q0)
      else Fin 10)"

text \<open>Lines 190 to 227: the refresh of the derived cells and of the quality.\<close>

definition refresh :: "(vec4f \<Rightarrow> vec4f) \<Rightarrow> adp_params \<Rightarrow> vec2i \<Rightarrow> state \<Rightarrow> state" where
  "refresh rgb_to_srgb params ij st =
     (let px = cells (pixels st) ij;
          r = render_cell (actual px);
          ro = render_cell (odd_part px);
          st1 = st\<lparr>render := (render st)\<lparr>cells := (cells (render st))(ij := r)\<rparr>,
                   odd_render := (odd_render st)\<lparr>cells := (cells (odd_render st))(ij := ro)\<rparr>\<rparr>
      in set_pixel st1 ij (px\<lparr>pixel_q := new_q rgb_to_srgb params (samples (actual px)) r ro\<rparr>))"

text \<open>Lines 143 to 146: the number of iterations of the loop.\<close>

definition effective_samples :: "adp_params \<Rightarrow> pixel \<Rightarrow> int \<Rightarrow> int" where
  "effective_samples params px num_samples =
     (if max_samples params < samples (actual px) + num_samples
      then max_samples params - samples (actual px)
      else num_samples)"

text \<open>
  \<^verbatim>\<open>trace_sample\<close>, run by one worker; \<open>env s\<close> is what iteration \<open>s\<close> takes from
  outside.  The camera only feeds the external sampler and is left out.
\<close>

definition trace_sample ::
  "(vec4f \<Rightarrow> vec4f) \<Rightarrow> state \<Rightarrow> scene \<Rightarrow> vec2i \<Rightarrow> int \<Rightarrow> adp_params \<Rightarrow> (nat \<Rightarrow> event) \<Rightarrow> fault + state"
where
  "trace_sample rgb_to_srgb st sc ij num_samples params env =
     (case sample_loop sc params ij env 0
             (nat (effective_samples params (cells (pixels st) ij) num_samples)) st of
        Inl e \<Rightarrow> Inl e
      | Inr (fired, st1) \<Rightarrow>
          if fired then Inr st1 else Inr (refresh rgb_to_srgb params ij st1))"

text \<open>A sequence of calls of \<^verbatim>\<open>trace_sample\<close>, each with its own arguments.\<close>

type_synonym call = "scene \<times> vec2i \<times> int \<times> adp_params \<times> (nat \<Rightarrow> event)"

fun run_calls :: "(vec4f \<Rightarrow> vec4f) \<Rightarrow> state \<Rightarrow> call list \<Rightarrow> fault + state" where
  "run_calls rgb_to_srgb st [] = Inr st"
| "run_calls rgb_to_srgb st ((sc, ij, n, params, env) # cs) =
     (case trace_sample rgb_to_srgb st sc ij n params env of
        Inl e \<Rightarrow> Inl e
      | Inr st1 \<Rightarrow> run_calls rgb_to_srgb st1 cs)"

section \<open>Quality pass\<close>

text \<open>
  The loop of the sample-limited \<^verbatim>\<open>trace_until_quality\<close>, lines 263 to 272.  Call
  number \<open>i\<close> of \<^verbatim>\<open>trace_sample\<close> takes \<open>envs i\<close> from outside; the \<^verbatim>\<open>checkEnd\<close> that
  follows it takes the stop flag and the clock from \<open>after i\<close>.  \<open>shoot\<close> is the
  counter \<^verbatim>\<open>samples_shoot\<close>.  The loop need not end (it never does with
  \<^verbatim>\<open>sample_step = 0\<close> on a pixel that stays below \<open>q\<close>), so it runs on fuel, and
  \<open>None\<close> is a run that is still going when the fuel is spent.  The result holds
  the number of calls of \<^verbatim>\<open>trace_sample\<close> issued so far and the state.
\<close>

fun quality_loop ::
  "nat \<Rightarrow> (vec4f \<Rightarrow> vec4f) \<Rightarrow> scene \<Rightarrow> vec2i \<Rightarrow> adp_params \<Rightarrow> flt \<Rightarrow> int \<Rightarrow>
   (nat \<Rightarrow> nat \<Rightarrow> event) \<Rightarrow> (nat \<Rightarrow> event) \<Rightarrow> nat \<Rightarrow> int \<Rightarrow> state \<Rightarrow> (fault + nat \<times> state) option"
where
  "quality_loop 0 rgb_to_srgb sc ij params q sample_limit envs after i shoot st = None"
| "quality_loop (Suc fuel) rgb_to_srgb sc ij params q sample_limit envs after i shoot st =
     (if flt_less (pixel_q (cells (pixels st) ij)) q \<and> shoot < sample_limit
      then (case trace_sample rgb_to_srgb st sc ij (sample_step params) params (envs i) of
              Inl e \<Rightarrow> Some (Inl e)
            | Inr st1 \<Rightarrow>
                (let st2 = raise_stop (stop_before_check (after i)) st1 in
                 case checkEnd st2 params (check_now (after i)) of
                   Inl e \<Rightarrow> Some (Inl e)
                 | Inr fired \<Rightarrow>
                     if fired then Some (Inr (Suc i, st2))
                     else quality_loop fuel rgb_to_srgb sc ij params q sample_limit envs after
                            (Suc i) (shoot + sample_step params) st2))
      else Some (Inr (i, st)))"

text \<open>
  \<^verbatim>\<open>trace_until_quality\<close> with a sample limit, lines 251 to 273: one call of
  \<^verbatim>\<open>trace_sample\<close> and one \<^verbatim>\<open>checkEnd\<close> come first, then \<^verbatim>\<open>samples_shoot\<close> starts at
  \<^verbatim>\<open>sample_step\<close> and the loop begins.
\<close>

definition trace_until_quality ::
  "nat \<Rightarrow> (vec4f \<Rightarrow> vec4f) \<Rightarrow> state \<Rightarrow> scene \<Rightarrow> vec2i \<Rightarrow> adp_params \<Rightarrow> flt \<Rightarrow> int \<Rightarrow>
   (nat \<Rightarrow> nat \<Rightarrow> event) \<Rightarrow> (nat \<Rightarrow> event) \<Rightarrow> (fault + nat \<times> state) option"
where
  "trace_until_quality fuel rgb_to_srgb st sc ij params q sample_limit envs after =
     (case trace_sample rgb_to_srgb st sc ij (sample_step params) params (envs 0) of
        Inl e \<Rightarrow> Some (Inl e)
      | Inr st1 \<Rightarrow>
          (let st2 = raise_stop (stop_before_check (after 0)) st1 in
           case checkEnd st2 params (check_now (after 0)) of
             Inl e \<Rightarrow> Some (Inl e)
           | Inr fired \<Rightarrow>
               if fired then Some (Inr (1, st2))
               else quality_loop fuel rgb_to_srgb sc ij params q sample_limit envs after
                      1 (sample_step params) st2))"

text \<open>
  The relation between the two sample counts of a pixel: \<^verbatim>\<open>odd\<close> has seen every
  second sample, starting with the first.
\<close>

definition parity_inv :: "pixel \<Rightarrow> bool" where
  "parity_inv px =
     (0 \<le> samples (actual px) \<and> samples (odd_part px) = (samples (actual px) + 1) div 2)"

text \<open>The state in which \<^verbatim>\<open>checkEnd\<close> can divide.\<close>

definition oracle_defined :: "state \<Rightarrow> adp_params \<Rightarrow> bool" where
  "oracle_defined st params = (desired_spp params \<le> 0 \<or> img_size st \<noteq> 0)"

section \<open>Example inputs\<close>

text \<open>
  The state that \<^verbatim>\<open>init_state\<close> leaves for an image of size \<open>sz\<close> when the clock
  reads 0, and a parameter set with the typical batch sizes and no budget.
\<close>

definition fresh_state :: "vec2i \<Rightarrow> state" where
  "fresh_state sz =
     \<lparr>pixels = assign sz zero_pixel, render = assign sz zero4f,
      odd_render = assign sz zero4f, sample_count = 0, start_time = 0,
      min_q = Fin 0, curr_q = Fin 0, ij_by_q = [], ij_by_proximity = [], stop = False\<rparr>"

definition example_trace_params :: trace_params where
  "example_trace_params = \<lparr>resolution = 1, envhidden = True, clamp = Fin 10\<rparr>"

definition example_params :: adp_params where
  "example_params =
     \<lparr>trc_params = example_trace_params, min_samples = 32, sample_step = 8,
      max_samples = 100, desired_q = Fin 5, desired_spp = 0, desired_seconds = 0\<rparr>"

text \<open>A camera with a film of 36 mm by 12 mm.\<close>

definition wide_camera :: camera where
  "wide_camera = \<lparr>film = (Fin (9 / 250), Fin (3 / 250))\<rparr>"

text \<open>
  The transfer curve of sRGB on the three colour channels.  The conversion itself is
  a parameter of \<^verbatim>\<open>trace_sample\<close> above, and every general statement holds for any
  conversion; this curve is the one the examples run with.
\<close>

fun srgb_channel :: "flt \<Rightarrow> flt" where
  "srgb_channel (Fin a) =
     Fin (if a \<le> 31308 / 10000000 then 1292 / 100 * a
          else 1055 / 1000 * a powr (10 / 24) - 55 / 1000)"
| "srgb_channel x = x"

definition srgb_curve :: "vec4f \<Rightarrow> vec4f" where
  "srgb_curve c = (case c of (x, y, z, w) \<Rightarrow> (srgb_channel x, srgb_channel y, srgb_channel z, w))"

text \<open>An iteration in which the sampler misses and nobody raises the stop flag.\<close>

definition quiet_event :: event where
  "quiet_event =
     \<lparr>stop_before_sample = False, sampled_radiance = zero3f, sampled_hit = False,
      sampler_nanos = 0, stop_before_check = False, check_now = 0\<rparr>"

definition example_scene :: scene where
  "example_scene = \<lparr>environments_empty = True\<rparr>"

text \<open>Iterations in which the sampler hits a white surface, and a black one.\<close>

definition white_event :: event where
  "white_event = quiet_event\<lparr>sampled_radiance := (Fin 1, Fin 1, Fin 1), sampled_hit := True\<rparr>"

definition black_event :: event where
  "black_event = quiet_event\<lparr>sampled_hit := True\<rparr>"

text \<open>A sampler that misses and hits a white surface in turn.\<close>

definition noisy_env :: "nat \<Rightarrow> event" where
  "noisy_env s = (if even s then quiet_event else white_event)"

section \<open>Properties of the spread table\<close>

lemma sq_sum_not_neg:
  "\<not> real_of_int i * real_of_int i + real_of_int j * real_of_int j < 0"
  by (simp add: not_less)

lemma spread_keep_iff:
  "spread_keep radius i j =
     (radius = 1 \<or> sqrt (real_of_int (i * i + j * j)) \<le> real_of_int radius)"
  by (simp add: spread_keep_def flt_of_int_def sq_sum_not_neg)

lemma sqrt_le_int:
  assumes "0 \<le> r"
  shows "(sqrt (real_of_int n) \<le> real_of_int r) = (n \<le> r * r)"
proof -
  have "(sqrt (real_of_int n) \<le> real_of_int r) = (sqrt (real_of_int n) \<le> sqrt (real_of_int (r * r)))"
    using assms by (simp add: real_sqrt_mult)
  also have "\<dots> = (real_of_int n \<le> real_of_int (r * r))"
    by (rule real_sqrt_le_iff)
  also have "\<dots> = (n \<le> r * r)"
    by (rule of_int_le_iff)
  finally show ?thesis .
qed

lemma spread_keep_int:
  "0 \<le> radius \<Longrightarrow>
   spread_keep radius i j = (radius = 1 \<or> i * i + j * j \<le> radius * radius)"
  by (simp only: spread_keep_iff sqrt_le_int)

lemma spread_radius_cases:
  "spread_radius q = 8 \<or> spread_radius q = 4 \<or> spread_radius q = 2 \<or> spread_radius q = 1"
  by (simp add: spread_radius_def)

lemma concat_map_if:
  "concat (map (\<lambda>j. if c j then [] else if P j then [f j] else []) xs)
   = map f (filter (\<lambda>j. \<not> c j \<and> P j) xs)"
  by (induction xs) simp_all

lemma distinct_concat_map:
  "distinct xs \<Longrightarrow> (\<And>x. x \<in> set xs \<Longrightarrow> distinct (f x)) \<Longrightarrow>
   (\<And>x y. x \<in> set xs \<Longrightarrow> y \<in> set xs \<Longrightarrow> x \<noteq> y \<Longrightarrow> set (f x) \<inter> set (f y) = {}) \<Longrightarrow>
   distinct (concat (map f xs))"
  by (induction xs) auto

lemma create_sample_spread_rows:
  "create_sample_spread q =
     concat (map (\<lambda>i. map (\<lambda>j. \<lparr>spread_x = i, spread_y = j, spread_div = Fin 2\<rparr>)
        (filter (\<lambda>j. \<not> (i = 0 \<and> j = 0) \<and> spread_keep (spread_radius q) i j)
           [- spread_radius q..spread_radius q]))
       [- spread_radius q..spread_radius q])"
  by (simp add: create_sample_spread_def Let_def concat_map_if)

lemma set_create_sample_spread:
  "set (create_sample_spread q) =
     {\<lparr>spread_x = i, spread_y = j, spread_div = Fin 2\<rparr> | i j.
        - spread_radius q \<le> i \<and> i \<le> spread_radius q \<and>
        - spread_radius q \<le> j \<and> j \<le> spread_radius q \<and>
        (i, j) \<noteq> (0, 0) \<and> spread_keep (spread_radius q) i j}"
  by (auto simp: create_sample_spread_rows)

lemma distinct_create_sample_spread: "distinct (create_sample_spread q)"
  unfolding create_sample_spread_rows
  by (rule distinct_concat_map) (auto simp: distinct_map inj_on_def)


text \<open>
  Claim C6.  The table built by \<^verbatim>\<open>create_sample_spread\<close> holds, once each, exactly the
  offsets \<open>(i, j) \<noteq> (0, 0)\<close> with \<open>-r \<le> i, j \<le> r\<close> that lie within Euclidean distance
  \<open>r\<close> of the origin (all of them when \<open>r = 1\<close>), each with divisor 2, where \<open>r\<close> is 8
  for \<open>step_q \<le> 0.49\<close>, 4 for \<open>step_q \<le> 1.99\<close>, 2 for \<open>step_q \<le> 3.99\<close> and 1 otherwise.
  At \<open>step_q = 2.0\<close> the radius is 2 and the table has exactly 12 entries.
\<close>

theorem create_sample_spread_table:
  "spread_radius sq =
     (if fle sq (Fin (49 / 100)) then 8
      else if fle sq (Fin (199 / 100)) then 4
      else if fle sq (Fin (399 / 100)) then 2
      else 1)
   \<and> set (create_sample_spread sq) =
       {\<lparr>spread_x = i, spread_y = j, spread_div = Fin 2\<rparr> | i j.
          - spread_radius sq \<le> i \<and> i \<le> spread_radius sq \<and>
          - spread_radius sq \<le> j \<and> j \<le> spread_radius sq \<and>
          (i, j) \<noteq> (0, 0) \<and>
          (spread_radius sq = 1 \<or>
           sqrt (real_of_int (i * i + j * j)) \<le> real_of_int (spread_radius sq))}
   \<and> distinct (create_sample_spread sq)
   \<and> spread_radius (Fin 2) = 2
   \<and> length (create_sample_spread (Fin 2)) = 12
   \<and> create_sample_spread (Fin 2) =
       map (\<lambda>(i, j). \<lparr>spread_x = i, spread_y = j, spread_div = Fin 2\<rparr>)
         [(- 2, 0), (- 1, - 1), (- 1, 0), (- 1, 1), (0, - 2), (0, - 1),
          (0, 1), (0, 2), (1, - 1), (1, 0), (1, 1), (2, 0)]"
proof -
  have r2: "spread_radius (Fin 2) = 2"
    by (simp add: spread_radius_def)
  have tab: "create_sample_spread (Fin 2) =
       map (\<lambda>(i, j). \<lparr>spread_x = i, spread_y = j, spread_div = Fin 2\<rparr>)
         [(- 2, 0), (- 1, - 1), (- 1, 0), (- 1, 1), (0, - 2), (0, - 1),
          (0, 1), (0, 2), (1, - 1), (1, 0), (1, 1), (2, 0)]"
    by (simp add: create_sample_spread_rows r2 spread_keep_int upto.simps)
  have len: "length (create_sample_spread (Fin 2)) = 12"
    by (simp add: tab)
  have st: "set (create_sample_spread sq) =
       {\<lparr>spread_x = i, spread_y = j, spread_div = Fin 2\<rparr> | i j.
          - spread_radius sq \<le> i \<and> i \<le> spread_radius sq \<and>
          - spread_radius sq \<le> j \<and> j \<le> spread_radius sq \<and>
          (i, j) \<noteq> (0, 0) \<and>
          (spread_radius sq = 1 \<or>
           sqrt (real_of_int (i * i + j * j)) \<le> real_of_int (spread_radius sq))}"
    by (simp only: set_create_sample_spread spread_keep_iff)
  show ?thesis
    using r2 tab len st distinct_create_sample_spread [of sq]
    by (simp only: spread_radius_def [of sq] simp_thms)
qed

section \<open>Properties of the termination oracle\<close>

lemma tdiv_nonneg: "0 \<le> a \<Longrightarrow> 0 < b \<Longrightarrow> tdiv a b = a div b"
  by (cases "a = 0") (simp_all add: tdiv_def)

lemma tdiv_neg: "a < 0 \<Longrightarrow> 0 < b \<Longrightarrow> tdiv a b \<le> 0"
  by (simp add: tdiv_def pos_imp_zdiv_nonneg_iff)

lemma int_le_div_iff:
  fixes d e n :: int
  assumes "0 < n"
  shows "(d \<le> e div n) = (d * n \<le> e)"
proof
  assume "d \<le> e div n"
  then have "d * n \<le> (e div n) * n"
    using assms by (simp add: mult_right_mono)
  also have "\<dots> \<le> e"
    using assms by (metis add.commute add_increasing2 div_mult_mod_eq order_refl pos_mod_sign)
  finally show "d * n \<le> e" .
next
  assume "d * n \<le> e"
  then have "(d * n) div n \<le> e div n"
    using assms by (rule zdiv_mono1)
  then show "d \<le> e div n"
    using assms by simp
qed

lemma seconds_elapsed_iff:
  assumes "0 < d"
  shows "(d \<le> tdiv e 1000000000) = (d * 1000000000 \<le> e)"
proof (cases "0 \<le> e")
  case True
  then have "tdiv e 1000000000 = e div 1000000000"
    by (simp add: tdiv_nonneg)
  moreover have "(d \<le> e div 1000000000) = (d * 1000000000 \<le> e)"
    by (rule int_le_div_iff) simp
  ultimately show ?thesis by simp
next
  case False
  then have "tdiv e 1000000000 \<le> 0"
    by (simp add: tdiv_neg)
  with False assms show ?thesis by auto
qed

text \<open>
  Claim C2.  On a state where the quotient of the sample budget test is defined (the
  stop flag is up, or no sample budget is set, or the image is not empty),
  \<^verbatim>\<open>checkEnd\<close> returns true exactly when the stop flag is set, or \<open>desired_spp > 0\<close>
  and the integer quotient \<open>sample_count / (width * height)\<close> is at least
  \<open>desired_spp\<close>, or \<open>desired_seconds > 0\<close> and the elapsed time is at least
  \<open>desired_seconds\<close>, or \<open>desired_spp = 0\<close> and \<open>desired_seconds = 0\<close> and
  \<open>min_q \<ge> desired_q\<close>.  When \<open>desired_spp\<close> or \<open>desired_seconds\<close> is not zero, the
  result does not depend on the quality at all.
\<close>

theorem checkEnd_exact:
  assumes "stop st \<or> desired_spp p \<le> 0 \<or> img_size st \<noteq> 0"
  shows "checkEnd st p now =
           Inr (stop st
                \<or> (0 < desired_spp p \<and>
                   desired_spp p \<le> tdiv (sample_count st)
                      (fst (extent (render st)) * snd (extent (render st))))
                \<or> (0 < desired_seconds p \<and>
                   desired_seconds p * 1000000000 \<le> now - start_time st)
                \<or> (desired_spp p = 0 \<and> desired_seconds p = 0 \<and>
                   fge (min_q st) (desired_q p)))
         \<and> (desired_spp p \<noteq> 0 \<or> desired_seconds p \<noteq> 0 \<longrightarrow>
            checkEnd st p now =
              Inr (stop st
                   \<or> (0 < desired_spp p \<and>
                      desired_spp p \<le> tdiv (sample_count st)
                         (fst (extent (render st)) * snd (extent (render st))))
                   \<or> (0 < desired_seconds p \<and>
                      desired_seconds p * 1000000000 \<le> now - start_time st)))"
  using assms
  by (auto simp: checkEnd_def img_size_def seconds_elapsed_iff)

theorem checkEnd_exact_witness:
  "checkEnd ((fresh_state (4, 4))\<lparr>sample_count := 64\<rparr>)
      (example_params\<lparr>desired_spp := 4\<rparr>) 7 = Inr True
   \<and> checkEnd ((fresh_state (4, 4))\<lparr>sample_count := 63, min_q := Fin 9\<rparr>)
      (example_params\<lparr>desired_spp := 4\<rparr>) 7 = Inr False"
  using checkEnd_exact [of "(fresh_state (4, 4))\<lparr>sample_count := 64\<rparr>"
      "example_params\<lparr>desired_spp := 4\<rparr>" 7]
    checkEnd_exact [of "(fresh_state (4, 4))\<lparr>sample_count := 63, min_q := Fin 9\<rparr>"
      "example_params\<lparr>desired_spp := 4\<rparr>" 7]
  by (simp add: fresh_state_def example_params_def img_size_def assign_def tdiv_def fge_def)

text \<open>
  Claim C10.  With \<open>desired_spp > 0\<close>, on every state whose render has zero area the
  quotient \<open>sample_count / (width * height)\<close> of \<^verbatim>\<open>checkEnd\<close> is a division by
  zero: nothing guards it but the stop flag, which is tested first.
\<close>

theorem checkEnd_empty_image_faults:
  assumes "0 < desired_spp p"
    and "fst (extent (render st)) * snd (extent (render st)) = 0"
  shows "checkEnd st p now = (if stop st then Inr True else Inl DivisionByZero)"
  using assms by (simp add: checkEnd_def img_size_def)

theorem checkEnd_empty_image_faults_witness:
  "checkEnd (fresh_state (0, 3)) (example_params\<lparr>desired_spp := 1\<rparr>) 0 = Inl DivisionByZero"
  using checkEnd_empty_image_faults [of "example_params\<lparr>desired_spp := 1\<rparr>" "fresh_state (0, 3)" 0]
  by (simp add: fresh_state_def example_params_def assign_def)

section \<open>Properties of the initialisation\<close>

lemma coords_empty: "w = 0 \<or> h = 0 \<Longrightarrow> coords (w, h) = []"
  by (auto simp: coords_def)

text \<open>
  Claim C7 says that \<^verbatim>\<open>init_state\<close> rejects an input whose computed image size has
  zero width or height.  It does not: at resolution 1 a film of 36 by 12 gives the
  size \<open>(1, 0)\<close>, and \<^verbatim>\<open>init_state\<close> returns a state whose pixel grid is empty.
\<close>

theorem init_state_zero_height_counterexample:
  "image_size wide_camera example_trace_params = Inr (1, 0)
   \<and> init_state (fresh_state (0, 0)) wide_camera
        example_trace_params 0 = Inr (fresh_state (1, 0))
   \<and> extent (pixels (fresh_state (1, 0))) = (1, 0)
   \<and> coords (extent (pixels (fresh_state (1, 0)))) = []"
proof -
  have sz: "image_size wide_camera example_trace_params = Inr (1, 0)"
    by (simp add: image_size_def wide_camera_def example_trace_params_def fgt_def flt_of_int_def trunc_real_def)
  show ?thesis
    by (simp add: sz init_state_def fresh_state_def assign_def coords_def)
qed

text \<open>
  Claim C7, as the code has it.  \<^verbatim>\<open>init_state\<close> tests nothing about the size: for
  every input whose computed image size has zero width or height, and with the stop
  flag down, it returns a state whose three images have that size, so that the
  pixel grid has no cell.
\<close>

theorem init_state_accepts_empty_image:
  assumes "image_size cam tp = Inr (w, h)" and "w = 0 \<or> h = 0" and "\<not> stop st"
  shows "\<exists>st'. init_state st cam tp now = Inr st'
           \<and> extent (pixels st') = (w, h) \<and> extent (render st') = (w, h)
           \<and> extent (odd_render st') = (w, h)
           \<and> coords (extent (pixels st')) = []"
  using assms by (simp add: init_state_def assign_def coords_empty)

theorem init_state_accepts_empty_image_witness:
  "\<exists>st'. init_state (fresh_state (5, 5)) wide_camera
            example_trace_params 0 = Inr st'
         \<and> extent (pixels st') = (1, 0) \<and> extent (render st') = (1, 0)
         \<and> extent (odd_render st') = (1, 0)
         \<and> coords (extent (pixels st')) = []"
proof -
  have sz: "image_size wide_camera example_trace_params = Inr (1, 0)"
    by (simp add: image_size_def wide_camera_def example_trace_params_def fgt_def flt_of_int_def trunc_real_def)
  have ns: "\<not> stop (fresh_state (5, 5))"
    by (simp add: fresh_state_def)
  show ?thesis
    using init_state_accepts_empty_image [OF sz _ ns, of 0] by simp
qed

section \<open>Properties of the quality map\<close>

lemma pow2_pos: "0 < pow2 e"
  by (simp add: pow2_def)

lemma pow2_powr: "pow2 e = 2 powr real_of_int e"
proof (cases "0 \<le> e")
  case True
  then show ?thesis by (simp add: pow2_def powr_realpow [symmetric])
next
  case False
  then have "2 powr real_of_int e = 1 / 2 powr real_of_int (- e)"
    by (simp add: powr_minus_divide)
  also have "\<dots> = 1 / 2 ^ nat (- e)"
    using False by (simp add: powr_realpow [symmetric])
  finally show ?thesis using False by (simp add: pow2_def)
qed

lemma floor_log2_eq:
  assumes "pow2 k \<le> x" and "x < pow2 (k + 1)"
  shows "\<lfloor>log 2 x\<rfloor> = k"
proof -
  have x: "0 < x" using assms(1) pow2_pos [of k] by linarith
  have "real_of_int k \<le> log 2 x"
    using assms(1) x by (simp add: pow2_powr le_log_iff)
  moreover have "log 2 x < real_of_int k + 1"
    using assms(2) x by (simp add: pow2_powr log_less_iff)
  ultimately show ?thesis by linarith
qed

lemma round_even_ge: "real_of_int K \<le> m \<Longrightarrow> K \<le> round_even m"
proof -
  assume "real_of_int K \<le> m"
  then have "K \<le> \<lfloor>m\<rfloor>" by (simp add: le_floor_iff)
  then show ?thesis by (auto simp: round_even_def)
qed

lemma round_even_le: "m \<le> real_of_int K \<Longrightarrow> round_even m \<le> K"
proof -
  assume a: "m \<le> real_of_int K"
  show ?thesis
  proof (cases "m = real_of_int K")
    case True
    then show ?thesis by (simp add: round_even_def)
  next
    case False
    with a have "m < real_of_int K" by simp
    then have "\<lfloor>m\<rfloor> < K" by (simp add: floor_less_iff)
    then have "\<lfloor>m\<rfloor> + 1 \<le> K" by simp
    then show ?thesis by (auto simp: round_even_def)
  qed
qed


lemma f32_ulp_small:
  assumes "0 < x" and "x < 16777216"
  shows "\<exists>n. f32_ulp x = 1 / 2 ^ n"
proof -
  have "log 2 x < 24"
  proof -
    have "x < 2 powr 24" using assms(2) by simp
    then show ?thesis using assms(1) by (simp add: log_less_iff)
  qed
  then have "\<lfloor>log 2 x\<rfloor> \<le> 23" by linarith
  then have le: "max (- 126) \<lfloor>log 2 \<bar>x\<bar>\<rfloor> - 23 \<le> 0"
    using assms(1) by simp
  show ?thesis
  proof (cases "max (- 126) \<lfloor>log 2 \<bar>x\<bar>\<rfloor> - 23 = 0")
    case True
    then have "f32_ulp x = 1 / 2 ^ 0" by (simp add: f32_ulp_def pow2_def)
    then show ?thesis by blast
  next
    case False
    with le have "f32_ulp x = 1 / 2 ^ nat (- (max (- 126) \<lfloor>log 2 \<bar>x\<bar>\<rfloor> - 23))"
      by (simp add: f32_ulp_def pow2_def)
    then show ?thesis by blast
  qed
qed

lemma f32_round_small:
  assumes "0 \<le> x" and "x < 16777216"
  shows "\<exists>r. f32_round x = Fin r
           \<and> (\<forall>k. real_of_int k \<le> x \<longrightarrow> real_of_int k \<le> r)
           \<and> (\<forall>k. x \<le> real_of_int k \<longrightarrow> r \<le> real_of_int k)"
proof (cases "x = 0")
  case True
  then show ?thesis by (simp add: f32_round_def)
next
  case False
  with assms(1) have pos: "0 < x" by simp
  from f32_ulp_small [OF pos assms(2)] obtain n where u: "f32_ulp x = 1 / 2 ^ n" by blast
  define r where "r = real_of_int (round_even (x * 2 ^ n)) / 2 ^ n"
  have lo: "real_of_int k \<le> r" if "real_of_int k \<le> x" for k
  proof -
    have "real_of_int (k * 2 ^ n) \<le> x * 2 ^ n"
      using that by simp
    then have "k * 2 ^ n \<le> round_even (x * 2 ^ n)" by (rule round_even_ge)
    then have "real_of_int (k * 2 ^ n) \<le> real_of_int (round_even (x * 2 ^ n))"
      by (simp only: of_int_le_iff)
    then show ?thesis by (simp add: r_def pos_le_divide_eq)
  qed
  have hi: "r \<le> real_of_int k" if "x \<le> real_of_int k" for k
  proof -
    have "x * 2 ^ n \<le> real_of_int (k * 2 ^ n)"
      using that by simp
    then have "round_even (x * 2 ^ n) \<le> k * 2 ^ n" by (rule round_even_le)
    then have "real_of_int (round_even (x * 2 ^ n)) \<le> real_of_int (k * 2 ^ n)"
      by (simp only: of_int_le_iff)
    then show ?thesis by (simp add: r_def pos_divide_le_eq)
  qed
  have "real_of_int 0 \<le> r" using assms(1) by (intro lo) simp
  moreover have "r \<le> real_of_int 16777216" using assms(2) by (intro hi) simp
  ultimately have "\<bar>r\<bar> < pow2 128" by (simp add: pow2_def)
  then have "f32_round x = Fin r"
    using False by (simp add: f32_round_def u r_def Let_def)
  then show ?thesis using lo hi by blast
qed

lemma q_img_cell_trunc:
  assumes "pixel_q px = Fin a" and "0 \<le> a" and "a * 20 < 16777216"
  shows "\<exists>b p. f32_round (a * 20) = Fin p \<and> q_img_cell px = Inr (b, b, b, 255)
           \<and> uint b = min 255 \<lfloor>p\<rfloor>
           \<and> \<lfloor>a * 20\<rfloor> \<le> \<lfloor>p\<rfloor> \<and> \<lfloor>p\<rfloor> \<le> \<lfloor>a * 20\<rfloor> + 1"
proof -
  have nn: "0 \<le> a * 20" using assms(2) by simp
  from f32_round_small [OF nn assms(3)] obtain p where
    p: "f32_round (a * 20) = Fin p"
    and lo: "\<And>k. real_of_int k \<le> a * 20 \<Longrightarrow> real_of_int k \<le> p"
    and hi: "\<And>k. a * 20 \<le> real_of_int k \<Longrightarrow> p \<le> real_of_int k"
    by blast
  have p0: "0 \<le> p" using lo [of 0] nn by simp
  have pu: "p \<le> 16777216" using hi [of 16777216] assms(3) by simp
  have f1: "\<lfloor>a * 20\<rfloor> \<le> \<lfloor>p\<rfloor>"
    using lo [of "\<lfloor>a * 20\<rfloor>"] by (simp add: le_floor_iff)
  have "p \<le> real_of_int (\<lfloor>a * 20\<rfloor> + 1)"
    by (rule hi) linarith
  then have f2: "\<lfloor>p\<rfloor> \<le> \<lfloor>a * 20\<rfloor> + 1"
    by (simp add: floor_le_iff)
  define v where "v = min 255 \<lfloor>p\<rfloor>"
  have fl: "0 \<le> \<lfloor>p\<rfloor>" using p0 by simp
  have up: "\<lfloor>p\<rfloor> \<le> 2147483647" using pu by (simp add: floor_le_iff)
  have cast: "int_of_flt (fmul32 (pixel_q px) (Fin 20)) = Inr \<lfloor>p\<rfloor>"
    using assms(1) p p0 fl up by (simp add: fmul32_def trunc_real_def)
  have "(if 255 < y then 255 else y) = min 255 y" for y :: int
    by auto
  then have v_if: "(if 255 < \<lfloor>p\<rfloor> then 255 else \<lfloor>p\<rfloor>) = v"
    unfolding v_def .
  have cell: "q_img_cell px = Inr (word_of_int v, word_of_int v, word_of_int v, 255)"
    by (simp only: q_img_cell_def cast sum.case Let_def v_if)
  have "0 \<le> v" "v < 256" using fl by (simp_all add: v_def)
  then have "uint (word_of_int v :: byte) = v"
    by (simp add: uint_word_of_int)
  then show ?thesis using cell p f1 f2 by (auto simp: v_def)
qed

lemma q_img_loop_total:
  assumes "\<forall>ij \<in> set ijs. \<exists>c. q_img_cell (cells (pixels st) ij) = Inr c"
  shows "\<exists>img'. q_img_loop st ijs img = Inr img' \<and> extent img' = extent img
           \<and> (\<forall>ij. cells img' ij =
                 (if ij \<in> set ijs then projr (q_img_cell (cells (pixels st) ij))
                  else cells img ij))"
  using assms
proof (induction ijs arbitrary: img)
  case Nil
  then show ?case by simp
next
  case (Cons a ijs)
  from Cons.prems obtain c where c: "q_img_cell (cells (pixels st) a) = Inr c"
    by auto
  from Cons.prems have rest: "\<forall>ij \<in> set ijs. \<exists>c. q_img_cell (cells (pixels st) ij) = Inr c"
    by simp
  from Cons.IH [OF rest, of "img\<lparr>cells := (cells img)(a := c)\<rparr>"]
  obtain img' where
    "q_img_loop st ijs (img\<lparr>cells := (cells img)(a := c)\<rparr>) = Inr img'"
    "extent img' = extent img"
    "\<forall>ij. cells img' ij =
        (if ij \<in> set ijs then projr (q_img_cell (cells (pixels st) ij))
         else (if ij = a then c else cells img ij))"
    by auto
  then show ?case using c by auto
qed


lemma f32_round_at:
  assumes "x \<noteq> 0" and "pow2 k \<le> \<bar>x\<bar>" and "\<bar>x\<bar> < pow2 (k + 1)" and "- 126 \<le> k"
    and "\<bar>real_of_int (round_even (x / pow2 (k - 23))) * pow2 (k - 23)\<bar> < pow2 128"
  shows "f32_round x = Fin (real_of_int (round_even (x / pow2 (k - 23))) * pow2 (k - 23))"
proof -
  have "\<lfloor>log 2 \<bar>x\<bar>\<rfloor> = k" using assms(2,3) by (rule floor_log2_eq)
  then have "f32_ulp x = pow2 (k - 23)" using assms(4) by (simp add: f32_ulp_def)
  then show ?thesis using assms(1,5) by (simp add: f32_round_def Let_def)
qed

lemma f32_round_15_8: "f32_round (15 / 8) = Fin (15 / 8)"
proof -
  have "f32_round (15 / 8) =
      Fin (real_of_int (round_even (15 / 8 / pow2 (0 - 23))) * pow2 (0 - 23))"
    by (rule f32_round_at) (simp_all add: pow2_def round_even_def)
  then show ?thesis by (simp add: pow2_def round_even_def)
qed

lemma f32_round_minus_20: "f32_round (- 20) = Fin (- 20)"
proof -
  have "f32_round (- 20) =
      Fin (real_of_int (round_even (- 20 / pow2 (4 - 23))) * pow2 (4 - 23))"
    by (rule f32_round_at) (simp_all add: pow2_def round_even_def)
  then show ?thesis by (simp add: pow2_def round_even_def)
qed

text \<open>The \<^verbatim>\<open>float\<close> nearest to 0.35 is \<open>11744051 / 2\<^sup>2\<^sup>5\<close>; its product with 20 rounds to 7.\<close>

lemma f32_round_7: "f32_round (11744051 / 33554432 * 20) = Fin 7"
proof -
  have e: "11744051 / 33554432 * 20 = (58720255 / 8388608 :: real)" by simp
  have "f32_round (58720255 / 8388608) =
      Fin (real_of_int (round_even (58720255 / 8388608 / pow2 (2 - 23))) * pow2 (2 - 23))"
    by (rule f32_round_at) (simp_all add: pow2_def round_even_def)
  then show ?thesis unfolding e by (simp add: pow2_def round_even_def)
qed

text \<open>
  Claim C8 says that each intensity of the quality map is \<open>min(255, round(q * 20))\<close>.
  The conversion truncates instead: at \<open>q = 3/32\<close> the product is \<open>1.875\<close>, its nearest
  integer is 2, and the cell holds 1.  At \<open>q = -1\<close> the cell holds 236, the residue of
  \<open>-20\<close> modulo 256.
\<close>

theorem q_img_truncates_counterexample:
  "q_img_at ((fresh_state (1, 1))\<lparr>pixels := assign (1, 1) (zero_pixel\<lparr>pixel_q := Fin (3 / 32)\<rparr>)\<rparr>) (0, 0)
     = Inr (1, 1, 1, 255)
   \<and> min 255 (round (3 / 32 * 20 :: real)) = 2
   \<and> q_img_at ((fresh_state (1, 1))\<lparr>pixels := assign (1, 1) (zero_pixel\<lparr>pixel_q := Fin (- 1)\<rparr>)\<rparr>) (0, 0)
     = Inr (236, 236, 236, 255)"
  by (simp add: q_img_at_def q_img_def coords_def fresh_state_def assign_def upto.simps
      q_img_cell_def fmul32_def f32_round_15_8 f32_round_minus_20 trunc_real_def round_def)

text \<open>
  Claim C8, as the code has it.  When every pixel of the image has a finite quality
  \<open>q \<ge> 0\<close> with \<open>q * 20 < 2\<^sup>2\<^sup>4\<close>, \<^verbatim>\<open>q_img\<close> produces a grayscale image of the size
  of the render in which each intensity is \<open>min(255, \<lfloor>p\<rfloor>)\<close>, where \<open>p\<close> is the
  \<^verbatim>\<open>float\<close> product \<open>q * 20\<close>: the product is truncated, not rounded to the nearest
  integer, and the intensity never exceeds 255.  Since the product is itself rounded
  to \<^verbatim>\<open>float\<close>, \<open>\<lfloor>p\<rfloor>\<close> is \<open>\<lfloor>q * 20\<rfloor>\<close> or one more.
\<close>

theorem q_img_truncated_intensity:
  assumes "\<forall>ij \<in> set (coords (extent (render st))).
             \<exists>a. pixel_q (cells (pixels st) ij) = Fin a \<and> 0 \<le> a \<and> a * 20 < 16777216"
  shows "\<exists>img. q_img st = Inr img \<and> extent img = extent (render st)
           \<and> (\<forall>ij \<in> set (coords (extent (render st))). \<forall>a.
                 pixel_q (cells (pixels st) ij) = Fin a \<longrightarrow>
                 (\<exists>b p. f32_round (a * 20) = Fin p \<and> cells img ij = (b, b, b, 255)
                    \<and> uint b = min 255 \<lfloor>p\<rfloor> \<and> uint b \<le> 255
                    \<and> \<lfloor>a * 20\<rfloor> \<le> \<lfloor>p\<rfloor> \<and> \<lfloor>p\<rfloor> \<le> \<lfloor>a * 20\<rfloor> + 1))"
proof -
  have ok: "\<forall>ij \<in> set (coords (extent (render st))). \<exists>c. q_img_cell (cells (pixels st) ij) = Inr c"
    using assms q_img_cell_trunc by blast
  from q_img_loop_total [OF ok, of "assign (extent (render st)) (0, 0, 0, 255)"]
  obtain img where img: "q_img st = Inr img" "extent img = extent (render st)"
    and cell: "\<forall>ij. cells img ij =
        (if ij \<in> set (coords (extent (render st)))
         then projr (q_img_cell (cells (pixels st) ij))
         else cells (assign (extent (render st)) (0, 0, 0, 255)) ij)"
    by (auto simp: q_img_def assign_def)
  have "\<exists>b p. f32_round (a * 20) = Fin p \<and> cells img ij = (b, b, b, 255)
          \<and> uint b = min 255 \<lfloor>p\<rfloor> \<and> uint b \<le> 255
          \<and> \<lfloor>a * 20\<rfloor> \<le> \<lfloor>p\<rfloor> \<and> \<lfloor>p\<rfloor> \<le> \<lfloor>a * 20\<rfloor> + 1"
    if "ij \<in> set (coords (extent (render st)))" and "pixel_q (cells (pixels st) ij) = Fin a"
    for ij a
  proof -
    from assms that have "0 \<le> a" "a * 20 < 16777216" by auto
    from q_img_cell_trunc [OF that(2) this]
    obtain b p where "f32_round (a * 20) = Fin p"
      "q_img_cell (cells (pixels st) ij) = Inr (b, b, b, 255)"
      "uint b = min 255 \<lfloor>p\<rfloor>" "\<lfloor>a * 20\<rfloor> \<le> \<lfloor>p\<rfloor>" "\<lfloor>p\<rfloor> \<le> \<lfloor>a * 20\<rfloor> + 1" by auto
    then show ?thesis using cell [rule_format, of ij] that(1) by simp
  qed
  then show ?thesis using img by blast
qed

theorem q_img_truncated_intensity_witness:
  "\<exists>img. q_img ((fresh_state (1, 1))\<lparr>pixels := assign (1, 1)
            (zero_pixel\<lparr>pixel_q := Fin (11744051 / 33554432)\<rparr>)\<rparr>) = Inr img
      \<and> extent img = (1, 1)
      \<and> (\<exists>b. cells img (0, 0) = (b, b, b, 255) \<and> uint b = 7)
      \<and> \<lfloor>11744051 / 33554432 * 20 :: real\<rfloor> = 6"
proof -
  define st where
    "st = (fresh_state (1, 1))\<lparr>pixels := assign (1, 1)
            (zero_pixel\<lparr>pixel_q := Fin (11744051 / 33554432)\<rparr>)\<rparr>"
  have ext: "extent (render st) = (1, 1)"
    by (simp add: st_def fresh_state_def assign_def)
  have cs: "coords (1, 1) = [(0, 0)]"
    by (simp add: coords_def upto.simps)
  have qv: "pixel_q (cells (pixels st) (0, 0)) = Fin (11744051 / 33554432)"
    by (simp add: st_def assign_def)
  have hyp: "\<forall>ij \<in> set (coords (extent (render st))).
      \<exists>a. pixel_q (cells (pixels st) ij) = Fin a \<and> 0 \<le> a \<and> a * 20 < 16777216"
    unfolding ext cs using qv by (intro ballI exI [of _ "11744051 / 33554432"]) simp
  from q_img_truncated_intensity [OF hyp] obtain img where
    img: "q_img st = Inr img" "extent img = extent (render st)"
    and cell: "\<forall>ij \<in> set (coords (extent (render st))). \<forall>a.
         pixel_q (cells (pixels st) ij) = Fin a \<longrightarrow>
         (\<exists>b p. f32_round (a * 20) = Fin p \<and> cells img ij = (b, b, b, 255)
            \<and> uint b = min 255 \<lfloor>p\<rfloor> \<and> uint b \<le> 255
            \<and> \<lfloor>a * 20\<rfloor> \<le> \<lfloor>p\<rfloor> \<and> \<lfloor>p\<rfloor> \<le> \<lfloor>a * 20\<rfloor> + 1)"
    by blast
  have mem: "(0, 0) \<in> set (coords (extent (render st)))"
    by (simp add: ext cs)
  from cell [rule_format, OF mem qv] obtain b p where
    bp: "f32_round (11744051 / 33554432 * 20) = Fin p" "cells img (0, 0) = (b, b, b, 255)"
      "uint b = min 255 \<lfloor>p\<rfloor>"
    by blast
  from bp(1) have "p = 7" by (simp only: f32_round_7 flt.inject)
  with bp(3) have "uint b = 7" by simp
  with bp(2) have "\<exists>b. cells img (0, 0) = (b, b, b, 255) \<and> uint b = 7" by blast
  moreover have "\<lfloor>11744051 / 33554432 * 20 :: real\<rfloor> = 6" by simp
  ultimately show ?thesis using img ext unfolding st_def by simp
qed

section \<open>Properties of the sampler adapter\<close>

lemma raise_stop_simps [simp]:
  "pixels (raise_stop b st) = pixels st"
  "render (raise_stop b st) = render st"
  "odd_render (raise_stop b st) = odd_render st"
  "sample_count (raise_stop b st) = sample_count st"
  "start_time (raise_stop b st) = start_time st"
  "min_q (raise_stop b st) = min_q st"
  "stop (raise_stop b st) = (b \<or> stop st)"
  "img_size (raise_stop b st) = img_size st"
  by (simp_all add: raise_stop_def img_size_def)

lemma sample_once_frame [simp]:
  "render (sample_once sc params ij ev st) = render st"
  "odd_render (sample_once sc params ij ev st) = odd_render st"
  "start_time (sample_once sc params ij ev st) = start_time st"
  "min_q (sample_once sc params ij ev st) = min_q st"
  "img_size (sample_once sc params ij ev st) = img_size st"
  "extent (pixels (sample_once sc params ij ev st)) = extent (pixels st)"
  by (simp_all add: sample_once_def Let_def set_pixel_def img_size_def split: prod.split)

lemma sample_once_stop:
  "stop (sample_once sc params ij ev st) = (stop_before_sample ev \<or> stop st)"
  by (simp add: sample_once_def Let_def set_pixel_def split: prod.split)

lemma sample_once_other:
  "ij' \<noteq> ij \<Longrightarrow> cells (pixels (sample_once sc params ij ev st)) ij' = cells (pixels st) ij'"
  by (simp add: sample_once_def Let_def set_pixel_def split: prod.split)

lemma add_to_pixel_q [simp]: "pixel_q (add_to_pixel px r h) = pixel_q px"
  by (simp add: add_to_pixel_def Let_def)

lemma accumulate_samples [simp]: "samples (accumulate a r h) = samples a + 1"
  by (simp add: accumulate_def split: prod.split)

lemma add_to_pixel_samples [simp]:
  "samples (actual (add_to_pixel px r h)) = samples (actual px) + 1"
  by (simp add: add_to_pixel_def Let_def)

lemma sample_once_q [simp]:
  "pixel_q (cells (pixels (sample_once sc params ij ev st)) ij') = pixel_q (cells (pixels st) ij')"
  by (simp add: sample_once_def Let_def set_pixel_def split: prod.split)

lemma sample_once_samples:
  "samples (actual (cells (pixels (sample_once sc params ij ev st)) ij)) =
     samples (actual (cells (pixels st) ij)) + (if stop_before_sample ev \<or> stop st then 0 else 1)"
  by (simp add: sample_once_def Let_def set_pixel_def split: prod.split)

lemma tmod_2_nonneg: "0 \<le> n \<Longrightarrow> tmod n 2 = n mod 2"
  by (cases "n = 0") (simp_all add: tmod_def tdiv_def minus_mult_div_eq_mod)

lemma add_to_pixel_parity: "parity_inv px \<Longrightarrow> parity_inv (add_to_pixel px r h)"
  unfolding parity_inv_def add_to_pixel_def Let_def
  by (auto simp: tmod_2_nonneg) presburger+

lemma sample_once_parity:
  assumes "\<forall>ij. parity_inv (cells (pixels st) ij)"
  shows "\<forall>ij'. parity_inv (cells (pixels (sample_once sc params ij ev st)) ij')"
proof -
  have t: "parity_inv (px\<lparr>time_in_sample := t\<rparr>) = parity_inv px" for px t
    by (simp add: parity_inv_def)
  show ?thesis using assms
    by (auto simp: sample_once_def Let_def set_pixel_def raise_stop_def t add_to_pixel_parity
        split: prod.split)
qed

lemma sample_loop_invariant:
  assumes "sample_loop sc params ij env s k st = Inr (b, st')"
    and "P st"
    and "\<And>ev st. P st \<Longrightarrow> P (sample_once sc params ij ev st)"
    and "\<And>b st. P st \<Longrightarrow> P (raise_stop b st)"
  shows "P st'"
  using assms(1,2)
proof (induction k arbitrary: s st)
  case 0
  then show ?case by simp
next
  case (Suc k)
  let ?st2 = "raise_stop (stop_before_check (env s)) (sample_once sc params ij (env s) st)"
  have P2: "P ?st2" using Suc.prems(2) assms(3,4) by blast
  from Suc.prems(1) obtain fired where
    c: "checkEnd ?st2 params (check_now (env s)) = Inr fired"
    by (auto simp: Let_def split: sum.splits)
  show ?case
  proof (cases fired)
    case True
    with Suc.prems(1) c have "st' = ?st2" by (simp add: Let_def)
    with P2 show ?thesis by simp
  next
    case False
    with Suc.prems(1) c have "sample_loop sc params ij env (Suc s) k ?st2 = Inr (b, st')"
      by (simp add: Let_def)
    from Suc.IH [OF this P2] show ?thesis .
  qed
qed

lemma checkEnd_no_fault: "oracle_defined st params \<Longrightarrow> checkEnd st params now \<noteq> Inl e"
  by (auto simp: checkEnd_def oracle_defined_def)

lemma checkEnd_total:
  assumes "oracle_defined st params"
  shows "\<exists>b. checkEnd st params now = Inr b"
proof (cases "checkEnd st params now")
  case (Inl e)
  then show ?thesis using checkEnd_no_fault [OF assms] by blast
next
  case (Inr b)
  then show ?thesis by blast
qed

lemma oracle_defined_step [simp]:
  "oracle_defined (raise_stop b st) params = oracle_defined st params"
  "oracle_defined (sample_once sc params' ij ev st) params = oracle_defined st params"
  by (simp_all add: oracle_defined_def)

lemma sample_loop_total:
  "oracle_defined st params \<Longrightarrow> \<exists>b st'. sample_loop sc params ij env s k st = Inr (b, st')"
proof (induction k arbitrary: s st)
  case 0
  show ?case by (rule exI [of _ False]) simp
next
  case (Suc k)
  let ?st2 = "raise_stop (stop_before_check (env s)) (sample_once sc params ij (env s) st)"
  have d: "oracle_defined ?st2 params" using Suc.prems by simp
  from checkEnd_total [OF d] obtain fired where
    c: "checkEnd ?st2 params (check_now (env s)) = Inr fired" by blast
  show ?case
  proof (cases fired)
    case True
    then show ?thesis using c by (auto simp: Let_def)
  next
    case False
    then show ?thesis using c Suc.IH [OF d, of "Suc s"] by (auto simp: Let_def)
  qed
qed

lemma refresh_frame [simp]:
  "extent (render (refresh f params ij st)) = extent (render st)"
  "img_size (refresh f params ij st) = img_size st"
  "sample_count (refresh f params ij st) = sample_count st"
  "stop (refresh f params ij st) = stop st"
  "min_q (refresh f params ij st) = min_q st"
  "actual (cells (pixels (refresh f params ij st)) ij') = actual (cells (pixels st) ij')"
  "odd_part (cells (pixels (refresh f params ij st)) ij') = odd_part (cells (pixels st) ij')"
  by (simp_all add: refresh_def Let_def set_pixel_def img_size_def)

lemma parity_inv_refresh [simp]:
  "parity_inv (cells (pixels (refresh f params ij st)) ij') = parity_inv (cells (pixels st) ij')"
  by (simp add: parity_inv_def)

lemma trace_sample_cases:
  assumes "trace_sample f st sc ij n params env = Inr st'"
  obtains (cut) "sample_loop sc params ij env 0
       (nat (effective_samples params (cells (pixels st) ij) n)) st = Inr (True, st')"
  | (full) st1 where "sample_loop sc params ij env 0
       (nat (effective_samples params (cells (pixels st) ij) n)) st = Inr (False, st1)"
      "st' = refresh f params ij st1"
  using assms by (auto simp: trace_sample_def split: sum.splits prod.splits if_splits)

lemma trace_sample_total:
  assumes "oracle_defined st params"
  shows "\<exists>st'. trace_sample f st sc ij n params env = Inr st'"
proof -
  from sample_loop_total [OF assms] obtain b st1 where
    "sample_loop sc params ij env 0
       (nat (effective_samples params (cells (pixels st) ij) n)) st = Inr (b, st1)"
    by blast
  then show ?thesis by (cases b) (simp_all add: trace_sample_def)
qed

lemma trace_sample_parity:
  assumes "trace_sample f st sc ij n params env = Inr st'"
    and "\<forall>ij. parity_inv (cells (pixels st) ij)"
  shows "\<forall>ij. parity_inv (cells (pixels st') ij)"
  using assms(1)
proof (cases rule: trace_sample_cases)
  case cut
  from sample_loop_invariant [where P = "\<lambda>st. \<forall>ij. parity_inv (cells (pixels st) ij)", OF cut assms(2)]
  show ?thesis by (simp add: sample_once_parity)
next
  case (full st1)
  from sample_loop_invariant [where P = "\<lambda>st. \<forall>ij. parity_inv (cells (pixels st) ij)", OF full(1) assms(2)]
  show ?thesis by (simp add: sample_once_parity full(2))
qed

lemma trace_sample_img_size:
  assumes "trace_sample f st sc ij n params env = Inr st'"
  shows "img_size st' = img_size st"
  using assms
proof (cases rule: trace_sample_cases)
  case cut
  from sample_loop_invariant [where P = "\<lambda>s. img_size s = img_size st", OF cut]
  show ?thesis by simp
next
  case (full st1)
  from sample_loop_invariant [where P = "\<lambda>s. img_size s = img_size st", OF full(1)]
  show ?thesis by (simp add: full(2))
qed

lemma run_calls_parity:
  "run_calls f st cs = Inr st' \<Longrightarrow> \<forall>ij. parity_inv (cells (pixels st) ij) \<Longrightarrow>
   \<forall>ij. parity_inv (cells (pixels st') ij)"
proof (induction cs arbitrary: st)
  case Nil
  then show ?case by simp
next
  case (Cons c cs)
  obtain sc ij n params env where c: "c = (sc, ij, n, params, env)"
    by (cases c) auto
  from Cons.prems(1) obtain st1 where
    1: "trace_sample f st sc ij n params env = Inr st1" and 2: "run_calls f st1 cs = Inr st'"
    by (auto simp: c split: sum.splits)
  from trace_sample_parity [OF 1 Cons.prems(2)] Cons.IH [OF 2] show ?case by blast
qed

lemma run_calls_total:
  "img_size st \<noteq> 0 \<Longrightarrow> \<exists>st'. run_calls f st cs = Inr st'"
proof (induction cs arbitrary: st)
  case Nil
  then show ?case by simp
next
  case (Cons c cs)
  obtain sc ij n params env where c: "c = (sc, ij, n, params, env)"
    by (cases c) auto
  have "oracle_defined st params" using Cons.prems by (simp add: oracle_defined_def)
  from trace_sample_total [OF this] obtain st1 where
    1: "trace_sample f st sc ij n params env = Inr st1" by blast
  from trace_sample_img_size [OF 1] Cons.prems have "img_size st1 \<noteq> 0" by simp
  from Cons.IH [OF this] show ?case using 1 by (simp add: c)
qed

lemma parity_inv_ceiling:
  assumes "parity_inv px"
  shows "samples (odd_part px) = \<lceil>real_of_int (samples (actual px)) / 2\<rceil>
       \<and> samples (odd_part px) \<in> {samples (actual px) div 2, (samples (actual px) + 1) div 2}
       \<and> 0 \<le> samples (odd_part px) \<and> samples (odd_part px) \<le> samples (actual px)"
proof -
  have "\<lceil>real_of_int n / 2\<rceil> = (n + 1) div 2" for n :: int
  proof -
    have "\<lceil>real_of_int n / real_of_int 2\<rceil> = - (- n div 2)"
      by (rule ceiling_divide_eq_div)
    also have "\<dots> = (n + 1) div 2" by presburger
    finally show ?thesis by simp
  qed
  then show ?thesis using assms unfolding parity_inv_def by auto
qed

text \<open>
  Claim C3.  After any sequence of calls of \<^verbatim>\<open>trace_sample\<close> that starts from the
  zeroed state, every pixel has \<open>odd.samples = \<lceil>all.samples / 2\<rceil>\<close>, which is one of
  \<open>all.samples / 2\<close> and \<open>(all.samples + 1) / 2\<close>, and
  \<open>all.samples \<ge> odd.samples \<ge> 0\<close>.  On a non-empty image the sequence of calls does
  reach a state.
\<close>

theorem odd_samples_half_of_all:
  assumes "\<forall>ij. cells (pixels st0) ij = zero_pixel"
  shows "(\<forall>st. run_calls f st0 cs = Inr st \<longrightarrow>
            (\<forall>ij. samples (odd_part (cells (pixels st) ij))
                     = \<lceil>real_of_int (samples (actual (cells (pixels st) ij))) / 2\<rceil>
                 \<and> samples (odd_part (cells (pixels st) ij))
                     \<in> {samples (actual (cells (pixels st) ij)) div 2,
                        (samples (actual (cells (pixels st) ij)) + 1) div 2}
                 \<and> 0 \<le> samples (odd_part (cells (pixels st) ij))
                 \<and> samples (odd_part (cells (pixels st) ij))
                     \<le> samples (actual (cells (pixels st) ij))))
       \<and> (img_size st0 \<noteq> 0 \<longrightarrow> (\<exists>st. run_calls f st0 cs = Inr st))"
proof -
  have z: "\<forall>ij. parity_inv (cells (pixels st0) ij)"
    using assms by (simp add: parity_inv_def zero_pixel_def zero_sample_def)
  show ?thesis
    using run_calls_parity [OF _ z] parity_inv_ceiling run_calls_total by blast
qed

lemmas eval_defs =
  trace_sample_def effective_samples_def sample_once_def raise_stop_def set_pixel_def
  adjust_sample_def add_to_pixel_def accumulate_def checkEnd_def img_size_def
  refresh_def render_cell_def new_q_def pixel_error_def
  fresh_state_def example_params_def example_trace_params_def example_scene_def quiet_event_def
  white_event_def black_event_def
  assign_def zero_pixel_def zero_sample_def zero3f_def zero4f_def
  isfinite3_def max3_def fmax_def vscale_def fge_def fgt_def fsub_def flt_of_int_def
  tmod_def tdiv_def srgb_curve_def Let_def


theorem odd_samples_half_of_all_witness:
  "\<exists>st. run_calls srgb_curve (fresh_state (1, 1))
          [(example_scene, (0, 0), 3, example_params, \<lambda>_. quiet_event)] = Inr st
      \<and> samples (actual (cells (pixels st) (0, 0))) = 3
      \<and> samples (odd_part (cells (pixels st) (0, 0))) = 2
      \<and> samples (odd_part (cells (pixels st) (0, 0)))
           = \<lceil>real_of_int (samples (actual (cells (pixels st) (0, 0)))) / 2\<rceil>"
proof -
  have z: "\<forall>ij. cells (pixels (fresh_state (1, 1))) ij = zero_pixel"
    by (simp add: fresh_state_def assign_def)
  have run: "\<exists>st. run_calls srgb_curve (fresh_state (1, 1))
          [(example_scene, (0, 0), 3, example_params, \<lambda>_. quiet_event)] = Inr st
      \<and> samples (actual (cells (pixels st) (0, 0))) = 3
      \<and> samples (odd_part (cells (pixels st) (0, 0))) = 2"
    by (simp add: eval_defs eval_nat_numeral)
  then obtain st where st: "run_calls srgb_curve (fresh_state (1, 1))
          [(example_scene, (0, 0), 3, example_params, \<lambda>_. quiet_event)] = Inr st"
      "samples (actual (cells (pixels st) (0, 0))) = 3"
      "samples (odd_part (cells (pixels st) (0, 0))) = 2"
    by blast
  from odd_samples_half_of_all [OF z, of srgb_curve
      "[(example_scene, (0, 0), 3, example_params, \<lambda>_. quiet_event)]"] st(1)
  have "samples (odd_part (cells (pixels st) (0, 0)))
           = \<lceil>real_of_int (samples (actual (cells (pixels st) (0, 0)))) / 2\<rceil>"
    by blast
  with st show ?thesis by blast
qed


lemma effective_samples_min:
  "effective_samples params px n = min n (max_samples params - samples (actual px))"
  by (simp add: effective_samples_def min_def)

lemma sample_loop_count:
  assumes "sample_loop sc params ij env s k st = Inr (b, st')"
  shows "samples (actual (cells (pixels st) ij)) \<le> samples (actual (cells (pixels st') ij))
       \<and> samples (actual (cells (pixels st') ij)) \<le> samples (actual (cells (pixels st) ij)) + int k
       \<and> (if b then \<exists>i. s \<le> i \<and> i < s + k \<and> checkEnd st' params (check_now (env i)) = Inr True
           else samples (actual (cells (pixels st') ij)) = samples (actual (cells (pixels st) ij)) + int k)"
  using assms
proof (induction k arbitrary: s st)
  case 0
  then show ?case by simp
next
  case (Suc k)
  let ?st1 = "sample_once sc params ij (env s) st"
  let ?st2 = "raise_stop (stop_before_check (env s)) ?st1"
  from Suc.prems obtain fired where
    c: "checkEnd ?st2 params (check_now (env s)) = Inr fired"
    by (auto simp: Let_def split: sum.splits)
  have cnt: "samples (actual (cells (pixels ?st2) ij)) =
      samples (actual (cells (pixels st) ij)) + (if stop_before_sample (env s) \<or> stop st then 0 else 1)"
    by (simp add: sample_once_samples)
  show ?case
  proof (cases fired)
    case True
    with Suc.prems c have eq: "st' = ?st2" "b" by (simp_all add: Let_def)
    have "\<exists>i. s \<le> i \<and> i < s + Suc k \<and> checkEnd st' params (check_now (env i)) = Inr True"
      using c True eq(1) by (intro exI [of _ s]) simp
    then show ?thesis using eq cnt by simp
  next
    case False
    with Suc.prems c have rec: "sample_loop sc params ij env (Suc s) k ?st2 = Inr (b, st')"
      by (simp add: Let_def)
    from c False have "\<not> stop ?st2"
      by (auto simp: checkEnd_def split: if_splits)
    then have ns: "\<not> (stop_before_sample (env s) \<or> stop st)"
      by (simp add: sample_once_stop)
    from Suc.IH [OF rec] cnt ns show ?thesis
      by (auto split: if_splits intro: less_SucI) (metis Suc_leD add_Suc_shift)+
  qed
qed


lemma refresh_samples [simp]:
  "samples (actual (cells (pixels (refresh f params ij st)) ij')) = samples (actual (cells (pixels st) ij'))"
  by simp

text \<open>
  Claim C4.  For a call of \<^verbatim>\<open>trace_sample\<close> on a pixel with
  \<open>all.samples \<le> max_samples\<close>, the number of iterations is
  \<open>min(n, max_samples - all.samples)\<close>; the call takes at most that many new
  samples (none when that number is negative), exactly that many unless a
  termination check fired on the state it returns (the stop flag is the first test
  of that check), and \<open>all.samples \<le> max_samples\<close> holds again afterwards.  The call
  does return when the quotient of \<^verbatim>\<open>checkEnd\<close> is defined.
\<close>

theorem trace_sample_batch_size:
  assumes "samples (actual (cells (pixels st) ij)) \<le> max_samples params"
  shows "effective_samples params (cells (pixels st) ij) n
           = min n (max_samples params - samples (actual (cells (pixels st) ij)))
       \<and> (\<forall>st'. trace_sample f st sc ij n params env = Inr st' \<longrightarrow>
              samples (actual (cells (pixels st) ij)) \<le> samples (actual (cells (pixels st') ij))
            \<and> samples (actual (cells (pixels st') ij)) - samples (actual (cells (pixels st) ij))
                 \<le> max 0 (min n (max_samples params - samples (actual (cells (pixels st) ij))))
            \<and> samples (actual (cells (pixels st') ij)) \<le> max_samples params
            \<and> (samples (actual (cells (pixels st') ij)) - samples (actual (cells (pixels st) ij))
                  = max 0 (min n (max_samples params - samples (actual (cells (pixels st) ij))))
               \<or> (\<exists>s. s < nat (min n (max_samples params - samples (actual (cells (pixels st) ij))))
                     \<and> checkEnd st' params (check_now (env s)) = Inr True)))
       \<and> (desired_spp params \<le> 0 \<or> img_size st \<noteq> 0 \<longrightarrow>
            (\<exists>st'. trace_sample f st sc ij n params env = Inr st'))"
proof -
  define a where "a = samples (actual (cells (pixels st) ij))"
  define e where "e = min n (max_samples params - a)"
  have eff: "effective_samples params (cells (pixels st) ij) n = e"
    by (simp add: effective_samples_min e_def a_def)
  have le: "a + int (nat e) \<le> max_samples params"
    using assms by (auto simp: e_def a_def)
  have mx: "int (nat e) = max 0 e" by simp
  have post: "a \<le> samples (actual (cells (pixels st') ij))
      \<and> samples (actual (cells (pixels st') ij)) - a \<le> max 0 e
      \<and> samples (actual (cells (pixels st') ij)) \<le> max_samples params
      \<and> (samples (actual (cells (pixels st') ij)) - a = max 0 e
         \<or> (\<exists>s. s < nat e \<and> checkEnd st' params (check_now (env s)) = Inr True))"
    if r: "trace_sample f st sc ij n params env = Inr st'" for st'
    using r
  proof (cases rule: trace_sample_cases)
    case cut
    from sample_loop_count [OF cut [unfolded eff]] le mx show ?thesis
      unfolding a_def [symmetric] by auto
  next
    case (full st1)
    from sample_loop_count [OF full(1) [unfolded eff]] le mx show ?thesis
      unfolding a_def [symmetric] full(2) by simp
  qed
  have total: "\<exists>st'. trace_sample f st sc ij n params env = Inr st'"
    if "desired_spp params \<le> 0 \<or> img_size st \<noteq> 0"
    using that by (intro trace_sample_total) (simp add: oracle_defined_def)
  show ?thesis using eff post total unfolding e_def a_def by blast
qed

theorem trace_sample_batch_size_witness:
  "effective_samples (example_params\<lparr>max_samples := 5\<rparr>) (cells (pixels (fresh_state (1, 1))) (0, 0)) 8 = 5
   \<and> (\<exists>st'. trace_sample srgb_curve (fresh_state (1, 1)) example_scene (0, 0) 8
               (example_params\<lparr>max_samples := 5\<rparr>) (\<lambda>_. quiet_event) = Inr st'
         \<and> samples (actual (cells (pixels st') (0, 0))) = 5
         \<and> samples (actual (cells (pixels st') (0, 0)))
              \<le> max_samples (example_params\<lparr>max_samples := 5\<rparr>))"
proof -
  let ?p = "example_params\<lparr>max_samples := 5\<rparr>"
  have ev: "\<exists>st'. trace_sample srgb_curve (fresh_state (1, 1)) example_scene (0, 0) 8
               ?p (\<lambda>_. quiet_event) = Inr st'
         \<and> samples (actual (cells (pixels st') (0, 0))) = 5"
    by (simp add: eval_defs eval_nat_numeral)
  then obtain st' where r: "trace_sample srgb_curve (fresh_state (1, 1)) example_scene (0, 0) 8
               ?p (\<lambda>_. quiet_event) = Inr st'"
    and five: "samples (actual (cells (pixels st') (0, 0))) = 5"
    by blast
  have pre: "samples (actual (cells (pixels (fresh_state (1, 1))) (0, 0))) \<le> max_samples ?p"
    by (simp add: fresh_state_def assign_def zero_pixel_def zero_sample_def)
  note inst = trace_sample_batch_size [OF pre, of 8 srgb_curve example_scene "\<lambda>_. quiet_event"]
  from inst have "effective_samples ?p (cells (pixels (fresh_state (1, 1))) (0, 0)) 8 = 5"
    by (simp add: fresh_state_def assign_def zero_pixel_def zero_sample_def)
  moreover from inst r have "samples (actual (cells (pixels st') (0, 0))) \<le> max_samples ?p"
    by blast
  ultimately show ?thesis using r five by blast
qed









lemmas loop_defs =
  trace_sample_def effective_samples_def sample_once_def raise_stop_def set_pixel_def
  adjust_sample_def add_to_pixel_def accumulate_def checkEnd_def img_size_def
  refresh_def render_cell_def
  fresh_state_def example_params_def example_trace_params_def example_scene_def quiet_event_def
  white_event_def noisy_env_def
  assign_def zero_pixel_def zero_sample_def zero3f_def zero4f_def
  isfinite3_def max3_def fmax_def vscale_def fge_def fgt_def fsub_def flt_of_int_def
  tmod_def tdiv_def Let_def







lemma new_q_negative:
  assumes "n < max_samples params" and "pixel_error (f r) (f ro) = Fin e" and "1 < e"
  shows "new_q f params n r ro = Fin (- log 2 e)" and "- log 2 e < 0"
proof -
  have pos: "0 < log 2 e" using assms(3) by simp
  then show "- log 2 e < 0" by simp
  have "\<not> 10 < - log 2 e" using pos by linarith
  then have "\<not> fgt (Fin (- log 2 e)) (Fin 10)" by (simp add: fgt_def)
  moreover have "flog2 (Fin e) = Fin (log 2 e)" using assms(3) by simp
  ultimately show "new_q f params n r ro = Fin (- log 2 e)"
    using assms(1,2) by (simp add: new_q_def Let_def)
qed

lemma pixel_error_white_black_any:
  "pixel_error (srgb_curve (Fin 1, Fin 1, Fin 1, a)) (srgb_curve (Fin 0, Fin 0, Fin 0, b))
     = Fin (3 / sqrt 3)"
proof -
  have "1 \<le> sqrt 3" by simp
  then have "1 / 10000 \<le> sqrt 3" by linarith
  then show ?thesis
    by (simp add: pixel_error_def srgb_curve_def fsub_def fge_def Let_def)
qed

lemma one_less_3_sqrt3: "1 < 3 / sqrt 3"
proof -
  have "3 / sqrt 3 = sqrt 3" by (simp add: real_div_sqrt)
  moreover have "1 < sqrt 3" by simp
  ultimately show ?thesis by simp
qed

lemma new_q_white_black:
  assumes "n < max_samples params"
  shows "new_q srgb_curve params n (Fin 1, Fin 1, Fin 1, a) (Fin 0, Fin 0, Fin 0, b)
           = Fin (- log 2 (3 / sqrt 3))"
  by (rule new_q_negative(1) [where f = srgb_curve and r = "(Fin 1, Fin 1, Fin 1, a)"
        and ro = "(Fin 0, Fin 0, Fin 0, b)", OF assms pixel_error_white_black_any one_less_3_sqrt3])

lemma noisy_quality_negative: "flt_less (Fin (- log 2 (3 / sqrt 3))) (Fin 0)"
  using new_q_negative(2) [where f = srgb_curve and r = "(Fin 1, Fin 1, Fin 1, Fin 0)"
        and ro = "(Fin 0, Fin 0, Fin 0, Fin 0)" and n = 0 and params = example_params,
        OF _ pixel_error_white_black_any one_less_3_sqrt3]
  by (simp add: example_params_def)





section \<open>Properties of the quality pass\<close>

lemma trace_sample_oracle_defined:
  assumes "trace_sample f st sc ij n params env = Inr st'"
  shows "oracle_defined st' params' = oracle_defined st params'"
  using trace_sample_img_size [OF assms] by (simp add: oracle_defined_def)

lemma quality_loop_result:
  assumes "0 < sample_step params" and "oracle_defined st params"
    and "nat (sample_limit - shoot) < fuel" and "shoot = int i * sample_step params"
  shows "\<exists>i' st'. quality_loop fuel f sc ij params q sample_limit envs after i shoot st
             = Some (Inr (i', st'))
          \<and> i \<le> i' \<and> (i' = i \<longrightarrow> st' = st)
          \<and> (i' = i \<or> (int i' - 1) * sample_step params < sample_limit)
          \<and> (i < i' \<and> checkEnd st' params (check_now (after (i' - 1))) = Inr True
             \<or> \<not> flt_less (pixel_q (cells (pixels st') ij)) q
             \<or> sample_limit \<le> int i' * sample_step params)"
  using assms(2,3,4)
proof (induction fuel arbitrary: i shoot st)
  case 0
  then show ?case by simp
next
  case (Suc fuel)
  show ?case
  proof (cases "flt_less (pixel_q (cells (pixels st) ij)) q \<and> shoot < sample_limit")
    case False
    then have "quality_loop (Suc fuel) f sc ij params q sample_limit envs after i shoot st
        = Some (Inr (i, st))" by auto
    moreover have "\<not> flt_less (pixel_q (cells (pixels st) ij)) q
        \<or> sample_limit \<le> int i * sample_step params"
      using False Suc.prems(3) by auto
    ultimately show ?thesis by blast
  next
    case True
    from trace_sample_total [OF Suc.prems(1)] obtain st1 where
      ts: "trace_sample f st sc ij (sample_step params) params (envs i) = Inr st1" by blast
    let ?st2 = "raise_stop (stop_before_check (after i)) st1"
    have od2: "oracle_defined ?st2 params"
      using Suc.prems(1) trace_sample_oracle_defined [OF ts] by simp
    from checkEnd_total [OF od2] obtain fired where
      ce: "checkEnd ?st2 params (check_now (after i)) = Inr fired" by blast
    have lim: "(int (Suc i) - 1) * sample_step params < sample_limit"
      using True Suc.prems(3) by simp
    show ?thesis
    proof (cases fired)
      case True
      have "quality_loop (Suc fuel) f sc ij params q sample_limit envs after i shoot st
          = Some (Inr (Suc i, ?st2))"
        using \<open>flt_less (pixel_q (cells (pixels st) ij)) q \<and> shoot < sample_limit\<close> ts ce True
        by (simp add: Let_def)
      moreover have "checkEnd ?st2 params (check_now (after (Suc i - 1))) = Inr True"
        using ce True by simp
      ultimately show ?thesis using lim by (intro exI [of _ "Suc i"] exI [of _ ?st2]) simp
    next
      case False
      have step: "quality_loop (Suc fuel) f sc ij params q sample_limit envs after i shoot st
          = quality_loop fuel f sc ij params q sample_limit envs after (Suc i)
              (shoot + sample_step params) ?st2"
        using \<open>flt_less (pixel_q (cells (pixels st) ij)) q \<and> shoot < sample_limit\<close> ts ce False
        by (simp add: Let_def)
      have fuel': "nat (sample_limit - (shoot + sample_step params)) < fuel"
        using Suc.prems(2) assms(1) True by linarith
      have sh: "shoot + sample_step params = int (Suc i) * sample_step params"
        using Suc.prems(3) by (simp add: algebra_simps)
      from Suc.IH [OF od2 fuel' sh] obtain i' st' where
        r: "quality_loop fuel f sc ij params q sample_limit envs after (Suc i)
              (shoot + sample_step params) ?st2 = Some (Inr (i', st'))"
        and b: "Suc i \<le> i'"
          "i' = Suc i \<or> (int i' - 1) * sample_step params < sample_limit"
          "Suc i < i' \<and> checkEnd st' params (check_now (after (i' - 1))) = Inr True
             \<or> \<not> flt_less (pixel_q (cells (pixels st') ij)) q
             \<or> sample_limit \<le> int i' * sample_step params"
        by blast
      have "i \<le> i'" "i' = i \<longrightarrow> st' = st" using b(1) by simp_all
      moreover have "i' = i \<or> (int i' - 1) * sample_step params < sample_limit"
        using b(2) lim by auto
      moreover have "i < i' \<and> checkEnd st' params (check_now (after (i' - 1))) = Inr True
             \<or> \<not> flt_less (pixel_q (cells (pixels st') ij)) q
             \<or> sample_limit \<le> int i' * sample_step params"
        using b(3) by auto
      ultimately show ?thesis using step r by simp
    qed
  qed
qed


text \<open>
  Claim C9.  With a positive \<^verbatim>\<open>sample_step\<close> (and fuel for the loop), the
  sample-limited \<^verbatim>\<open>trace_until_quality\<close> returns, and its first action is one call of
  \<^verbatim>\<open>trace_sample\<close> for \<^verbatim>\<open>sample_step\<close> samples on the state it was given, whatever the
  quality threshold and the limit are.  When \<open>sample_limit \<le> sample_step\<close>, also when
  it is zero or negative, that call is the only one.  A further call is issued only
  while the counter \<^verbatim>\<open>samples_shoot\<close>, a multiple of \<^verbatim>\<open>sample_step\<close>, is below the
  limit; so when the run ends on the limit, with the quality still below the
  threshold and no termination check fired, the counted total is the smallest
  multiple of \<^verbatim>\<open>sample_step\<close> that is at least \<open>sample_limit\<close>.
\<close>

theorem trace_until_quality_first_chunk:
  assumes "0 < sample_step params"
    and "desired_spp params \<le> 0 \<or> img_size st \<noteq> 0"
    and "nat (sample_limit - sample_step params) < fuel"
  shows "\<exists>st1 chunks st'.
      trace_sample f st sc ij (sample_step params) params (envs 0) = Inr st1
    \<and> trace_until_quality fuel f st sc ij params q sample_limit envs after = Some (Inr (chunks, st'))
    \<and> 1 \<le> chunks
    \<and> (chunks = 1 \<longrightarrow> st' = raise_stop (stop_before_check (after 0)) st1)
    \<and> (sample_limit \<le> sample_step params \<longrightarrow> chunks = 1)
    \<and> (chunks = 1 \<or> (int chunks - 1) * sample_step params < sample_limit)
    \<and> (checkEnd st' params (check_now (after (chunks - 1))) = Inr True
       \<or> \<not> flt_less (pixel_q (cells (pixels st') ij)) q
       \<or> sample_limit \<le> int chunks * sample_step params)"
proof -
  have od: "oracle_defined st params"
    using assms(2) by (simp add: oracle_defined_def)
  from trace_sample_total [OF od] obtain st1 where
    ts: "trace_sample f st sc ij (sample_step params) params (envs 0) = Inr st1" by blast
  let ?st2 = "raise_stop (stop_before_check (after 0)) st1"
  have od2: "oracle_defined ?st2 params"
    using od trace_sample_oracle_defined [OF ts] by simp
  from checkEnd_total [OF od2] obtain fired where
    ce: "checkEnd ?st2 params (check_now (after 0)) = Inr fired" by blast
  show ?thesis
  proof (cases fired)
    case True
    have "trace_until_quality fuel f st sc ij params q sample_limit envs after = Some (Inr (1, ?st2))"
      using ts ce True by (simp add: trace_until_quality_def Let_def)
    moreover have "checkEnd ?st2 params (check_now (after (1 - 1))) = Inr True"
      using ce True by simp
    ultimately show ?thesis using ts
      by (intro exI [of _ st1] exI [of _ "1::nat"] exI [of _ ?st2]) simp
  next
    case False
    have eq: "trace_until_quality fuel f st sc ij params q sample_limit envs after
        = quality_loop fuel f sc ij params q sample_limit envs after 1 (sample_step params) ?st2"
      using ts ce False by (simp add: trace_until_quality_def Let_def)
    have sh: "sample_step params = int 1 * sample_step params" by simp
    from quality_loop_result [OF assms(1) od2 assms(3) sh] obtain i' st' where
      r: "quality_loop fuel f sc ij params q sample_limit envs after 1 (sample_step params) ?st2
            = Some (Inr (i', st'))"
      and b: "1 \<le> i'" "i' = 1 \<longrightarrow> st' = ?st2"
        "i' = 1 \<or> (int i' - 1) * sample_step params < sample_limit"
        "1 < i' \<and> checkEnd st' params (check_now (after (i' - 1))) = Inr True
           \<or> \<not> flt_less (pixel_q (cells (pixels st') ij)) q
           \<or> sample_limit \<le> int i' * sample_step params"
      by blast
    have one: "sample_limit \<le> sample_step params \<longrightarrow> i' = 1"
    proof
      assume le: "sample_limit \<le> sample_step params"
      show "i' = 1"
      proof (rule ccontr)
        assume "i' \<noteq> 1"
        with b(1,3) have "2 \<le> int i'" and lt: "(int i' - 1) * sample_step params < sample_limit"
          by auto
        then have "1 * sample_step params \<le> (int i' - 1) * sample_step params"
          using assms(1) by (intro mult_right_mono) auto
        with lt le show False by simp
      qed
    qed
    have last: "checkEnd st' params (check_now (after (i' - 1))) = Inr True
           \<or> \<not> flt_less (pixel_q (cells (pixels st') ij)) q
           \<or> sample_limit \<le> int i' * sample_step params"
      using b(4) by blast
    show ?thesis
      using ts eq r b(1,2,3) one last
      by (intro exI [of _ st1] exI [of _ i'] exI [of _ st']) simp
  qed
qed


theorem trace_until_quality_first_chunk_witness:
  "(\<exists>st'. trace_until_quality 3 srgb_curve (fresh_state (1, 1)) example_scene (0, 0)
          (example_params\<lparr>sample_step := 2\<rparr>) (Fin 0) 3 (\<lambda>_. noisy_env) (\<lambda>_. quiet_event)
            = Some (Inr (2, st'))
      \<and> samples (actual (cells (pixels st') (0, 0))) = 4)
   \<and> (\<exists>st'. trace_until_quality 1 srgb_curve (fresh_state (1, 1)) example_scene (0, 0)
          (example_params\<lparr>sample_step := 2\<rparr>) (Fin 0) (- 5) (\<lambda>_. noisy_env) (\<lambda>_. quiet_event)
            = Some (Inr (1, st'))
      \<and> samples (actual (cells (pixels st') (0, 0))) = 2)"
proof -
  let ?p = "example_params\<lparr>sample_step := 2\<rparr>"
  have a: "\<exists>st'. trace_until_quality 3 srgb_curve (fresh_state (1, 1)) example_scene (0, 0)
          ?p (Fin 0) 3 (\<lambda>_. noisy_env) (\<lambda>_. quiet_event) = Some (Inr (2, st'))
      \<and> samples (actual (cells (pixels st') (0, 0))) = 4"
    using noisy_quality_negative
    by (simp add: trace_until_quality_def loop_defs new_q_white_black eval_nat_numeral)
  have b: "\<exists>n st'. trace_until_quality 1 srgb_curve (fresh_state (1, 1)) example_scene (0, 0)
          ?p (Fin 0) (- 5) (\<lambda>_. noisy_env) (\<lambda>_. quiet_event) = Some (Inr (n, st'))
      \<and> samples (actual (cells (pixels st') (0, 0))) = 2"
    using noisy_quality_negative
    by (simp add: trace_until_quality_def loop_defs new_q_white_black eval_nat_numeral)
  have h1: "0 < sample_step ?p" by (simp add: example_params_def)
  have h2: "desired_spp ?p \<le> 0 \<or> img_size (fresh_state (1, 1)) \<noteq> 0"
    by (simp add: example_params_def)
  have h3: "nat (- 5 - sample_step ?p) < 1" by (simp add: example_params_def)
  have le: "- 5 \<le> sample_step ?p" by (simp add: example_params_def)
  from trace_until_quality_first_chunk [OF h1 h2 h3, of srgb_curve example_scene "(0, 0)"
      "\<lambda>_. noisy_env" "Fin 0" "\<lambda>_. quiet_event"] le
  obtain st' where "trace_until_quality 1 srgb_curve (fresh_state (1, 1)) example_scene (0, 0)
          ?p (Fin 0) (- 5) (\<lambda>_. noisy_env) (\<lambda>_. quiet_event) = Some (Inr (1, st'))"
    by blast
  with b have "\<exists>st'. trace_until_quality 1 srgb_curve (fresh_state (1, 1)) example_scene (0, 0)
          ?p (Fin 0) (- 5) (\<lambda>_. noisy_env) (\<lambda>_. quiet_event) = Some (Inr (1, st'))
      \<and> samples (actual (cells (pixels st') (0, 0))) = 2"
    by auto
  with a show ?thesis by (rule conjI)
qed

end
